theory Spec2Isabelle
  imports Main "HOL-Library.Word"
begin

section \<open>JavaScript strings, numbers and values\<close>

text \<open>
  A JavaScript string is a sequence of UTF-16 code units, so every string the decoders can
  receive (lone surrogates included) is a list of 16-bit words. \<open>js\<close> turns an ASCII literal
  into such a string.
\<close>

type_synonym jsstring = "16 word list"

definition js :: "string \<Rightarrow> jsstring" where
  "js s = map of_char s"

text \<open>
  Numbers are kept as sign, decimal mantissa and decimal exponent: \<open>Dec neg m e\<close> denotes
  \<open>\<plusminus> m * 10 ^ e\<close>. The normal form has \<open>e = 0\<close> when \<open>m = 0\<close> and no factor 10 in \<open>m\<close>
  otherwise. For a number \<open>x\<close> of the language, Number::toString works from the shortest
  digits \<open>s\<close> and the exponent \<open>n - k\<close> that read back as \<open>x\<close>; \<open>Dec\<close> in normal form is that
  triple, so a number stands for itself and its printed text is the one the language prints.
  Negative zero is \<open>Dec True 0 0\<close>. A literal that no binary64 value prints (too many digits,
  or too large) is kept as written: rounding, NaN and the infinities are outside the model.
\<close>

datatype jsnumber = Dec (neg: bool) (mant: nat) (expo: int)

datatype jsvalue =
    JUndefined
  | JNull
  | JBool bool
  | JNum jsnumber
  | JStr jsstring
  | JArr "jsvalue list"
  | JObj "(jsstring \<times> jsvalue) list"

datatype js_error = SyntaxError | TypeError

fun norm10 :: "nat \<Rightarrow> int \<Rightarrow> nat \<times> int" where
  "norm10 m e = (if m = 0 \<or> m mod 10 \<noteq> 0 then (m, e) else norm10 (m div 10) (e + 1))"

declare norm10.simps [simp del]

definition normalise :: "bool \<Rightarrow> nat \<Rightarrow> int \<Rightarrow> jsnumber" where
  "normalise sg m e = (if m = 0 then Dec sg 0 0 else case norm10 m e of (m', e') \<Rightarrow> Dec sg m' e')"

definition normal :: "jsnumber \<Rightarrow> bool" where
  "normal x = (if mant x = 0 then expo x = 0 else mant x mod 10 \<noteq> 0)"

definition is_integer :: "jsnumber \<Rightarrow> bool" where
  "is_integer x = (0 \<le> expo x)"

subsection \<open>Number::toString\<close>

definition decimal_digit :: "nat \<Rightarrow> 16 word" where
  "decimal_digit n = of_nat (48 + n)"

fun digits_of_nat :: "nat \<Rightarrow> jsstring" where
  "digits_of_nat n =
     (if n < 10 then [decimal_digit n] else digits_of_nat (n div 10) @ [decimal_digit (n mod 10)])"

declare digits_of_nat.simps [simp del]

text \<open>Steps 6 to 10 of Number::toString, from the digits and the position \<open>n\<close> of the point.\<close>

definition layout :: "jsstring \<Rightarrow> int \<Rightarrow> jsstring" where
  "layout ds n =
     (let k = int (length ds) in
      if k \<le> n \<and> n \<le> 21 then ds @ replicate (nat (n - k)) 0x30
      else if 0 < n \<and> n \<le> 21 then take (nat n) ds @ [0x2E] @ drop (nat n) ds
      else if - 6 < n \<and> n \<le> 0 then [0x30, 0x2E] @ replicate (nat (- n)) 0x30 @ ds
      else
        (let ex = n - 1;
             sg = (if ex < 0 then 0x2D else 0x2B);
             es = digits_of_nat (nat \<bar>ex\<bar>)
         in if k = 1 then ds @ [0x65, sg] @ es
            else take 1 ds @ [0x2E] @ drop 1 ds @ [0x65, sg] @ es))"

definition number_to_string :: "jsnumber \<Rightarrow> jsstring" where
  "number_to_string x =
     (if mant x = 0 then [0x30]
      else (if neg x then [0x2D] else []) @
           layout (digits_of_nat (mant x)) (int (length (digits_of_nat (mant x))) + expo x))"

subsection \<open>ToString, as the \<open>+\<close> operator applies it to a parsed value\<close>

text \<open>
  A plain object is converted through \<open>Object.prototype.toString\<close> unless it has an own
  property \<open>toString\<close>, which in a parsed value is never callable, so the conversion throws a
  TypeError. An array is joined with commas, \<open>null\<close> and \<open>undefined\<close> elements as the
  empty string.
\<close>

fun ToString :: "jsvalue \<Rightarrow> js_error + jsstring"
  and join_elements :: "jsvalue list \<Rightarrow> js_error + jsstring"
  and element_string :: "jsvalue \<Rightarrow> js_error + jsstring" where
  "ToString JUndefined = Inr (js ''undefined'')"
| "ToString JNull = Inr (js ''null'')"
| "ToString (JBool b) = Inr (if b then js ''true'' else js ''false'')"
| "ToString (JNum x) = Inr (number_to_string x)"
| "ToString (JStr s) = Inr s"
| "ToString (JArr xs) = join_elements xs"
| "ToString (JObj ms) =
     (if js ''toString'' \<in> fst ` set ms then Inl TypeError else Inr (js ''[object Object]''))"
| "join_elements [] = Inr []"
| "join_elements (x # xs) =
     (case element_string x of
        Inl e \<Rightarrow> Inl e
      | Inr s \<Rightarrow>
          if xs = [] then Inr s
          else (case join_elements xs of Inl e \<Rightarrow> Inl e | Inr t \<Rightarrow> Inr (s @ [0x2C] @ t)))"
| "element_string JUndefined = Inr []"
| "element_string JNull = Inr []"
| "element_string (JBool b) = ToString (JBool b)"
| "element_string (JNum x) = ToString (JNum x)"
| "element_string (JStr s) = ToString (JStr s)"
| "element_string (JArr xs) = ToString (JArr xs)"
| "element_string (JObj ms) = ToString (JObj ms)"

text \<open>\<open>v + s\<close> for a string \<open>s\<close>: string concatenation after ToString of \<open>v\<close>.\<close>

definition plus_string :: "jsvalue \<Rightarrow> jsstring \<Rightarrow> js_error + jsvalue" where
  "plus_string v s = (case ToString v of Inl e \<Rightarrow> Inl e | Inr t \<Rightarrow> Inr (JStr (t @ s)))"

text \<open>
  Reading a property of a parsed value. Only keys that no prototype defines are read by the
  decoders (\<open>output\<close>, \<open>metadata\<close>, \<open>cmd\<close>, \<open>command\<close>, \<open>timeout\<close>, \<open>workdir\<close>), so a value
  other than an object with that own key gives \<open>undefined\<close>.
\<close>

definition get_property :: "jsvalue \<Rightarrow> jsstring \<Rightarrow> jsvalue" where
  "get_property v k =
     (case v of
        JObj ms \<Rightarrow> (case map_of ms k of Some x \<Rightarrow> x | None \<Rightarrow> JUndefined)
      | _ \<Rightarrow> JUndefined)"

text \<open>\<open>typeof v === "object"\<close>: objects, arrays and \<open>null\<close>.\<close>

definition typeof_object :: "jsvalue \<Rightarrow> bool" where
  "typeof_object v = (case v of JObj ms \<Rightarrow> True | JArr xs \<Rightarrow> True | JNull \<Rightarrow> True | _ \<Rightarrow> False)"

definition has_property :: "jsvalue \<Rightarrow> jsstring \<Rightarrow> bool" where
  "has_property v k = (case v of JObj ms \<Rightarrow> k \<in> fst ` set ms | _ \<Rightarrow> False)"

section \<open>JSON.parse\<close>

datatype token =
    TLBrace | TRBrace | TLBracket | TRBracket | TColon | TComma
  | TString jsstring | TNumber jsnumber | TTrue | TFalse | TNull

definition is_whitespace :: "16 word \<Rightarrow> bool" where
  "is_whitespace c = (c = 0x09 \<or> c = 0x0A \<or> c = 0x0D \<or> c = 0x20)"

definition is_digit :: "16 word \<Rightarrow> bool" where
  "is_digit c = (0x30 \<le> c \<and> c \<le> 0x39)"

definition hex_value :: "16 word \<Rightarrow> nat option" where
  "hex_value c =
     (if 0x30 \<le> c \<and> c \<le> 0x39 then Some (unat c - 48)
      else if 0x41 \<le> c \<and> c \<le> 0x46 then Some (unat c - 55)
      else if 0x61 \<le> c \<and> c \<le> 0x66 then Some (unat c - 87)
      else None)"

definition hex4 :: "16 word \<Rightarrow> 16 word \<Rightarrow> 16 word \<Rightarrow> 16 word \<Rightarrow> 16 word option" where
  "hex4 a b c d =
     (case (hex_value a, hex_value b, hex_value c, hex_value d) of
        (Some x, Some y, Some z, Some w) \<Rightarrow> Some (of_nat (((x * 16 + y) * 16 + z) * 16 + w))
      | _ \<Rightarrow> None)"

definition unescape :: "16 word \<Rightarrow> 16 word option" where
  "unescape e =
     (if e = 0x22 then Some 0x22
      else if e = 0x5C then Some 0x5C
      else if e = 0x2F then Some 0x2F
      else if e = 0x62 then Some 0x08
      else if e = 0x66 then Some 0x0C
      else if e = 0x6E then Some 0x0A
      else if e = 0x72 then Some 0x0D
      else if e = 0x74 then Some 0x09
      else None)"

text \<open>The characters after an opening quote: the string's value and what follows its closing quote.\<close>

fun lex_string :: "jsstring \<Rightarrow> (jsstring \<times> jsstring) option" where
  "lex_string [] = None"
| "lex_string (c # cs) =
     (if c = 0x22 then Some ([], cs)
      else if c = 0x5C then
        (case cs of
           [] \<Rightarrow> None
         | e # r \<Rightarrow>
             if e = 0x75 then
               (case r of
                  h1 # h2 # h3 # h4 # r' \<Rightarrow>
                    (case hex4 h1 h2 h3 h4 of
                       None \<Rightarrow> None
                     | Some u \<Rightarrow> map_option (\<lambda>(s, rest). (u # s, rest)) (lex_string r'))
                | _ \<Rightarrow> None)
             else
               (case unescape e of
                  None \<Rightarrow> None
                | Some u \<Rightarrow> map_option (\<lambda>(s, rest). (u # s, rest)) (lex_string r)))
      else if c < 0x20 then None
      else map_option (\<lambda>(s, rest). (c # s, rest)) (lex_string cs))"

definition nat_of_digits :: "jsstring \<Rightarrow> nat" where
  "nat_of_digits ds = foldl (\<lambda>a c. 10 * a + (unat c - 48)) 0 ds"

definition lex_int :: "jsstring \<Rightarrow> (jsstring \<times> jsstring) option" where
  "lex_int cs =
     (case cs of
        [] \<Rightarrow> None
      | c # r \<Rightarrow>
          if c = 0x30 then Some ([c], r)
          else if is_digit c then Some (takeWhile is_digit cs, dropWhile is_digit cs)
          else None)"

definition lex_frac :: "jsstring \<Rightarrow> (jsstring \<times> jsstring) option" where
  "lex_frac cs =
     (case cs of
        [] \<Rightarrow> Some ([], cs)
      | c # r \<Rightarrow>
          if c = 0x2E then
            (if takeWhile is_digit r = [] then None
             else Some (takeWhile is_digit r, dropWhile is_digit r))
          else Some ([], cs))"

definition lex_exp_digits :: "bool \<Rightarrow> jsstring \<Rightarrow> (int \<times> jsstring) option" where
  "lex_exp_digits negative cs =
     (if takeWhile is_digit cs = [] then None
      else Some ((if negative then - int (nat_of_digits (takeWhile is_digit cs))
                  else int (nat_of_digits (takeWhile is_digit cs))),
                 dropWhile is_digit cs))"

definition lex_exp :: "jsstring \<Rightarrow> (int \<times> jsstring) option" where
  "lex_exp cs =
     (case cs of
        [] \<Rightarrow> Some (0, cs)
      | c # r \<Rightarrow>
          if c = 0x65 \<or> c = 0x45 then
            (case r of
               [] \<Rightarrow> None
             | s # r' \<Rightarrow>
                 if s = 0x2B then lex_exp_digits False r'
                 else if s = 0x2D then lex_exp_digits True r'
                 else lex_exp_digits False r)
          else Some (0, cs))"

definition lex_unsigned :: "bool \<Rightarrow> jsstring \<Rightarrow> (jsnumber \<times> jsstring) option" where
  "lex_unsigned sg cs =
     (case lex_int cs of
        None \<Rightarrow> None
      | Some (ip, cs1) \<Rightarrow>
          (case lex_frac cs1 of
             None \<Rightarrow> None
           | Some (fp, cs2) \<Rightarrow>
               (case lex_exp cs2 of
                  None \<Rightarrow> None
                | Some (ex, cs3) \<Rightarrow>
                    Some (normalise sg (nat_of_digits (ip @ fp)) (ex - int (length fp)), cs3))))"

definition lex_number :: "jsstring \<Rightarrow> (jsnumber \<times> jsstring) option" where
  "lex_number cs =
     (case cs of
        [] \<Rightarrow> None
      | c # r \<Rightarrow> if c = 0x2D then lex_unsigned True r else lex_unsigned False cs)"

lemma lex_string_length:
  "lex_string cs = Some (s, rest) \<Longrightarrow> length rest < length cs"
proof (induction cs arbitrary: s rest rule: lex_string.induct)
  case 1
  then show ?case by simp
next
  case (2 c cs)
  show ?case
  proof (cases "c = 0x22")
    case True
    with "2.prems" show ?thesis by simp
  next
    case notq: False
    show ?thesis
    proof (cases "c = 0x5C")
      case False
      with notq "2.prems" "2.IH"(3) show ?thesis
        by (fastforce split: if_splits)
    next
      case True
      with notq "2.prems" obtain e r where cs: "cs = e # r"
        by (cases cs) auto
      show ?thesis
      proof (cases "e = 0x75")
        case False
        with notq True cs "2.prems" "2.IH"(2) show ?thesis
          by (fastforce split: option.splits)
      next
        case u: True
        with notq True cs "2.prems" obtain h1 h2 h3 h4 r' where r: "r = h1 # h2 # h3 # h4 # r'"
          by (auto split: list.splits)
        with notq True cs u "2.prems" "2.IH"(1) show ?thesis
          by (fastforce split: option.splits)
      qed
    qed
  qed
qed

lemma lex_int_length: "lex_int cs = Some (ds, rest) \<Longrightarrow> length rest < length cs"
  by (auto simp: lex_int_def less_Suc_eq_le length_dropWhile_le split: list.splits if_splits)

lemma lex_frac_length: "lex_frac cs = Some (ds, rest) \<Longrightarrow> length rest \<le> length cs"
  by (auto simp: lex_frac_def le_Suc_eq length_dropWhile_le split: list.splits if_splits)

lemma lex_exp_digits_length: "lex_exp_digits b cs = Some (ex, rest) \<Longrightarrow> length rest \<le> length cs"
  by (auto simp: lex_exp_digits_def length_dropWhile_le split: if_splits)

lemma lex_exp_length: "lex_exp cs = Some (ex, rest) \<Longrightarrow> length rest \<le> length cs"
  by (auto simp: lex_exp_def le_Suc_eq split: list.splits if_splits
           dest!: lex_exp_digits_length)

lemma lex_unsigned_length: "lex_unsigned sg cs = Some (x, rest) \<Longrightarrow> length rest < length cs"
  by (fastforce simp: lex_unsigned_def split: option.splits
                dest: lex_int_length lex_frac_length lex_exp_length)

lemma lex_number_length: "lex_number cs = Some (x, rest) \<Longrightarrow> length rest < length cs"
  by (auto simp: lex_number_def split: list.splits if_splits dest: lex_unsigned_length)

function tokenize :: "jsstring \<Rightarrow> token list option" where
  "tokenize [] = Some []"
| "tokenize (c # cs) =
     (if is_whitespace c then tokenize cs
      else if c = 0x7B then map_option ((#) TLBrace) (tokenize cs)
      else if c = 0x7D then map_option ((#) TRBrace) (tokenize cs)
      else if c = 0x5B then map_option ((#) TLBracket) (tokenize cs)
      else if c = 0x5D then map_option ((#) TRBracket) (tokenize cs)
      else if c = 0x3A then map_option ((#) TColon) (tokenize cs)
      else if c = 0x2C then map_option ((#) TComma) (tokenize cs)
      else if c = 0x22 then
        (case lex_string cs of
           None \<Rightarrow> None
         | Some (s, rest) \<Rightarrow> map_option ((#) (TString s)) (tokenize rest))
      else if c = 0x2D \<or> is_digit c then
        (case lex_number (c # cs) of
           None \<Rightarrow> None
         | Some (x, rest) \<Rightarrow> map_option ((#) (TNumber x)) (tokenize rest))
      else if take 4 (c # cs) = js ''true'' then map_option ((#) TTrue) (tokenize (drop 3 cs))
      else if take 5 (c # cs) = js ''false'' then map_option ((#) TFalse) (tokenize (drop 4 cs))
      else if take 4 (c # cs) = js ''null'' then map_option ((#) TNull) (tokenize (drop 3 cs))
      else None)"
  by pat_completeness auto

termination
proof (relation "measure length")
  show "wf (measure length)" by simp
qed (auto dest: lex_string_length lex_number_length)

declare tokenize.simps(2) [simp del]

text \<open>
  The grammar over tokens, as a machine with an explicit stack of the containers that are
  still open. An object keeps its members in insertion order, and a repeated key overwrites
  the earlier value in place.
\<close>

datatype frame = ArrFrame "jsvalue list" | ObjFrame "(jsstring \<times> jsvalue) list" jsstring

datatype pstate =
    SValue "frame list"
  | SArrStart "frame list"
  | SObjStart "frame list"
  | SKey "(jsstring \<times> jsvalue) list" "frame list"
  | SColon "(jsstring \<times> jsvalue) list" jsstring "frame list"
  | SAfterElem "jsvalue list" "frame list"
  | SAfterMember "(jsstring \<times> jsvalue) list" "frame list"
  | SDone jsvalue
  | SError

fun set_member :: "jsstring \<Rightarrow> jsvalue \<Rightarrow> (jsstring \<times> jsvalue) list \<Rightarrow> (jsstring \<times> jsvalue) list" where
  "set_member k v [] = [(k, v)]"
| "set_member k v ((k', v') # ms) =
     (if k = k' then (k, v) # ms else (k', v') # set_member k v ms)"

fun complete :: "jsvalue \<Rightarrow> frame list \<Rightarrow> pstate" where
  "complete v [] = SDone v"
| "complete v (ArrFrame xs # fs) = SAfterElem (xs @ [v]) fs"
| "complete v (ObjFrame ms k # fs) = SAfterMember (set_member k v ms) fs"

fun value_start :: "frame list \<Rightarrow> token \<Rightarrow> pstate" where
  "value_start fs TLBracket = SArrStart fs"
| "value_start fs TLBrace = SObjStart fs"
| "value_start fs (TString s) = complete (JStr s) fs"
| "value_start fs (TNumber x) = complete (JNum x) fs"
| "value_start fs TTrue = complete (JBool True) fs"
| "value_start fs TFalse = complete (JBool False) fs"
| "value_start fs TNull = complete JNull fs"
| "value_start fs _ = SError"

fun step :: "pstate \<Rightarrow> token \<Rightarrow> pstate" where
  "step (SValue fs) t = value_start fs t"
| "step (SArrStart fs) t =
     (if t = TRBracket then complete (JArr []) fs else value_start (ArrFrame [] # fs) t)"
| "step (SObjStart fs) t =
     (case t of TRBrace \<Rightarrow> complete (JObj []) fs | TString k \<Rightarrow> SColon [] k fs | _ \<Rightarrow> SError)"
| "step (SKey ms fs) t = (case t of TString k \<Rightarrow> SColon ms k fs | _ \<Rightarrow> SError)"
| "step (SColon ms k fs) t = (case t of TColon \<Rightarrow> SValue (ObjFrame ms k # fs) | _ \<Rightarrow> SError)"
| "step (SAfterElem xs fs) t =
     (case t of TComma \<Rightarrow> SValue (ArrFrame xs # fs) | TRBracket \<Rightarrow> complete (JArr xs) fs
      | _ \<Rightarrow> SError)"
| "step (SAfterMember ms fs) t =
     (case t of TComma \<Rightarrow> SKey ms fs | TRBrace \<Rightarrow> complete (JObj ms) fs | _ \<Rightarrow> SError)"
| "step (SDone v) t = SError"
| "step SError t = SError"

definition parse_tokens :: "token list \<Rightarrow> js_error + jsvalue" where
  "parse_tokens ts = (case foldl step (SValue []) ts of SDone v \<Rightarrow> Inr v | _ \<Rightarrow> Inl SyntaxError)"

definition JSON_parse :: "jsstring \<Rightarrow> js_error + jsvalue" where
  "JSON_parse text = (case tokenize text of None \<Rightarrow> Inl SyntaxError | Some ts \<Rightarrow> parse_tokens ts)"

section \<open>String methods\<close>

definition lastIndexOf :: "jsstring \<Rightarrow> 16 word \<Rightarrow> int" where
  "lastIndexOf s c =
     (if c \<in> set s then int (length s) - 1 - int (length (takeWhile (\<lambda>x. x \<noteq> c) (rev s)))
      else - 1)"

definition indexOf :: "jsstring \<Rightarrow> 16 word \<Rightarrow> int" where
  "indexOf s c = (if c \<in> set s then int (length (takeWhile (\<lambda>x. x \<noteq> c) s)) else - 1)"

text \<open>\<open>substring\<close> clamps both indices to the string and swaps them when they are out of order.\<close>

definition substring :: "jsstring \<Rightarrow> int \<Rightarrow> int \<Rightarrow> jsstring" where
  "substring s start endIndex =
     (let len = int (length s);
          a = min (max start 0) len;
          b = min (max endIndex 0) len
      in take (nat (max a b - min a b)) (drop (nat (min a b)) s))"

definition endsWith :: "jsstring \<Rightarrow> 16 word \<Rightarrow> bool" where
  "endsWith s c = (s \<noteq> [] \<and> last s = c)"

definition includes_js :: "jsstring \<Rightarrow> 16 word \<Rightarrow> bool" where
  "includes_js s c = (c \<in> set s)"

section \<open>The diagnostic recorder (debug-logger.ts)\<close>

text \<open>
  What a call does to the outside is the list of the operations it issues: lines on the
  console, directory creations and file writes. A file is named by its directory and the
  prefix of its name; the timestamp in the name and the text of a serialised record depend on
  the clock and on the engine's error messages and are left out, and a console line is named
  by its fixed text. \<open>DEBUG\<close> holds when the environment variable of that name is set to a
  non-empty string. The file system may refuse either operation, which the other two flags of
  the world decide.
\<close>

datatype file_body = Verbatim jsstring | Serialized

datatype io_event = ConsoleLog string | MkDir string | WriteFile string string file_body

record world =
  DEBUG :: bool
  mkdir_ok :: bool
  write_ok :: bool

definition LOG_DIR :: string where
  "LOG_DIR = ''debug-logs''"

definition writeToLogFile :: "world \<Rightarrow> string \<Rightarrow> io_event list" where
  "writeToLogFile w prefix =
     MkDir LOG_DIR #
     (if \<not> mkdir_ok w then [ConsoleLog ''[DEBUG] Failed to write log'']
      else WriteFile LOG_DIR prefix Serialized #
           (if write_ok w then [ConsoleLog ''[DEBUG] Log written'']
            else [ConsoleLog ''[DEBUG] Failed to write log'']))"

definition writeRawContent :: "world \<Rightarrow> string \<Rightarrow> jsstring \<Rightarrow> io_event list" where
  "writeRawContent w prefix content =
     MkDir LOG_DIR #
     (if \<not> mkdir_ok w then [ConsoleLog ''[DEBUG] Failed to write raw content'']
      else WriteFile LOG_DIR prefix (Verbatim content) #
           (if write_ok w then [ConsoleLog ''[DEBUG] Raw content written'']
            else [ConsoleLog ''[DEBUG] Failed to write raw content'']))"

definition logCommandExecution :: "world \<Rightarrow> jsstring list \<Rightarrow> jsstring \<Rightarrow> jsnumber \<Rightarrow> jsnumber \<Rightarrow> io_event list" where
  "logCommandExecution w command outp exitCode duration =
     (if \<not> DEBUG w then []
      else [ConsoleLog ''[DEBUG] Command executed'', ConsoleLog ''[DEBUG] Exit code''] @
           writeToLogFile w ''command-output'')"

definition logJsonParseAttempt :: "world \<Rightarrow> jsstring \<Rightarrow> bool \<Rightarrow> js_error option \<Rightarrow> io_event list" where
  "logJsonParseAttempt w jsonString success error =
     (if \<not> DEBUG w then []
      else [ConsoleLog (if success then ''[DEBUG] JSON parse succeeded'' else ''[DEBUG] JSON parse failed''),
            ConsoleLog ''[DEBUG] JSON length''] @
           (if \<not> success \<and> error \<noteq> None then [ConsoleLog ''[DEBUG] Parse error''] else []) @
           [ConsoleLog ''[DEBUG] Structure analysis''] @
           writeToLogFile w (if success then ''json-parse-success'' else ''json-parse-error'') @
           (if \<not> success then writeRawContent w ''failed-json-raw'' jsonString else []))"

definition count_matches :: "(16 word \<Rightarrow> bool) \<Rightarrow> jsstring \<Rightarrow> nat" where
  "count_matches p s = length (filter p s)"

definition is_control :: "16 word \<Rightarrow> bool" where
  "is_control c = (c \<le> 0x1F \<or> (0x7F \<le> c \<and> c \<le> 0x9F))"

definition potential_issues :: "jsstring \<Rightarrow> string list" where
  "potential_issues outp =
     (if length outp > 100000 then [''Output exceeds 100KB - may hit API token limits''] else []) @
     (if indexOf outp 0x7B \<noteq> - 1 \<and> lastIndexOf outp 0x7D < lastIndexOf outp 0x7B
      then [''JSON appears to be truncated - missing closing braces''] else []) @
     (if count_matches (\<lambda>c. c = 0x7B) outp \<noteq> count_matches (\<lambda>c. c = 0x7D) outp
      then [''Unbalanced JSON structure''] else []) @
     (if count_matches is_control outp > 0
      then [''Contains control characters that may corrupt JSON''] else [])"

definition analyzeToolCallOutput :: "world \<Rightarrow> jsstring \<Rightarrow> jsstring \<Rightarrow> jsstring \<Rightarrow> io_event list" where
  "analyzeToolCallOutput w functionName argsString outp =
     (if \<not> DEBUG w then []
      else [ConsoleLog ''[DEBUG] Tool call analysis'', ConsoleLog ''[DEBUG] Arguments''] @
           (if length (potential_issues outp) > 0
            then ConsoleLog ''[DEBUG] Potential issues detected:'' #
                 map (\<lambda>issue. ConsoleLog (''[DEBUG] - '' @ issue)) (potential_issues outp)
            else []) @
           writeToLogFile w ''tool-call-analysis'' @
           (if length (potential_issues outp) > 0
            then writeRawContent w ''problematic-tool-output'' outp else []))"

section \<open>The result decoder (parsers.ts)\<close>

definition writeErrorLog :: "world \<Rightarrow> io_event list" where
  "writeErrorLog w =
     MkDir ''logs'' #
     (if \<not> mkdir_ok w then [ConsoleLog ''Failed to write error log'']
      else WriteFile ''logs'' ''json-parse-error'' Serialized #
           (if write_ok w then [ConsoleLog ''Error details written'']
            else [ConsoleLog ''Failed to write error log'']))"

text \<open>
  What \<open>parseToolCallOutput\<close> returns at run time: the declared type promises a string and
  an \<open>ExecOutputMetadata\<close>, but both fields come out of \<open>JSON.parse\<close> unchecked, so they are
  arbitrary values.
\<close>

record tool_result =
  "output" :: jsvalue
  metadata :: jsvalue

definition truncated_fixed_note :: jsstring where
  "truncated_fixed_note = 0x0A # js ''[Note: Response was truncated and automatically fixed]''"

definition truncated_recovered_note :: jsstring where
  "truncated_recovered_note =
     0x0A # js ''[Note: Response was truncated but a valid portion was recovered]''"

definition truncation_message :: jsstring where
  "truncation_message =
     js ''Response appears to be truncated due to token limits. Try a smaller command output or check logs for details.''"

definition generic_message :: jsstring where
  "generic_message = js ''Failed to parse JSON result. Check logs for details.''"

text \<open>\<open>const { output, metadata } = v\<close>: a TypeError on \<open>null\<close> and \<open>undefined\<close>.\<close>

definition destructure :: "jsvalue \<Rightarrow> js_error + (jsvalue \<times> jsvalue)" where
  "destructure v =
     (if v = JNull \<or> v = JUndefined then Inl TypeError
      else Inr (get_property v (js ''output''), get_property v (js ''metadata'')))"

text \<open>Lines 52 to 55: the direct decode.\<close>

definition direct_decode :: "jsstring \<Rightarrow> js_error + tool_result" where
  "direct_decode toolCallOutput =
     (case JSON_parse toolCallOutput of
        Inl parseErr \<Rightarrow> Inl parseErr
      | Inr v \<Rightarrow>
          (case destructure v of
             Inl parseErr \<Rightarrow> Inl parseErr
           | Inr (outp, meta) \<Rightarrow> Inr \<lparr>output = outp, metadata = meta\<rparr>))"

text \<open>Lines 73 to 85: the retry with one closing brace appended.\<close>

definition close_brace_patch :: "world \<Rightarrow> jsstring \<Rightarrow> io_event list \<times> tool_result option" where
  "close_brace_patch w toolCallOutput =
     (let fixedJson = toolCallOutput @ [0x7D];
          failed = (\<lambda>fixErr. ConsoleLog ''Recovery attempt by adding closing brace failed'' #
                             logJsonParseAttempt w fixedJson False (Some fixErr))
      in case JSON_parse fixedJson of
           Inl fixErr \<Rightarrow> (failed fixErr, None)
         | Inr v \<Rightarrow>
             (case destructure v of
                Inl fixErr \<Rightarrow> (failed fixErr, None)
              | Inr (outp, meta) \<Rightarrow>
                  (let ev = ConsoleLog ''Successfully recovered JSON by adding closing brace'' #
                            logJsonParseAttempt w fixedJson True None
                   in case plus_string outp truncated_fixed_note of
                        Inl fixErr \<Rightarrow> (ev @ failed fixErr, None)
                      | Inr annotated \<Rightarrow> (ev, Some \<lparr>output = annotated, metadata = meta\<rparr>))))"

text \<open>
  Lines 97 to 106, for one \<open>i\<close>: the characters after index \<open>i\<close> and the running
  \<open>openCount\<close>; true when the count reaches zero.
\<close>

fun count_reaches_zero :: "jsstring \<Rightarrow> int \<Rightarrow> bool" where
  "count_reaches_zero [] openCount = False"
| "count_reaches_zero (c # cs) openCount =
     (let n1 = (if c = 0x7B then openCount + 1 else openCount);
          n2 = (if c = 0x7D then n1 - 1 else n1)
      in if n2 = 0 then True else count_reaches_zero cs n2)"

text \<open>
  Lines 93 to 108: the outer loop, at index \<open>i\<close> with the characters from \<open>i\<close> on. The
  \<open>break\<close> of line 104 leaves the inner loop only, so a later matched brace replaces \<open>start\<close>.
\<close>

fun scan_from :: "jsstring \<Rightarrow> nat \<Rightarrow> int \<Rightarrow> nat \<Rightarrow> nat" where
  "scan_from [] i lastOpenBrace start = start"
| "scan_from (c # cs) i lastOpenBrace start =
     (if int i \<le> lastOpenBrace
      then scan_from cs (Suc i) lastOpenBrace
             (if c = 0x7B \<and> count_reaches_zero cs 1 then i else start)
      else start)"

definition find_start :: "jsstring \<Rightarrow> int \<Rightarrow> nat" where
  "find_start toolCallOutput lastOpenBrace = scan_from toolCallOutput 0 lastOpenBrace 0"

definition candidate :: "jsstring \<Rightarrow> jsstring" where
  "candidate toolCallOutput =
     substring toolCallOutput
       (int (find_start toolCallOutput (lastIndexOf toolCallOutput 0x7B)))
       (lastIndexOf toolCallOutput 0x7D + 1)"

definition expected_structure :: "jsvalue \<Rightarrow> bool" where
  "expected_structure parsedObj =
     (typeof_object parsedObj \<and> parsedObj \<noteq> JNull \<and>
      has_property parsedObj (js ''output'') \<and> has_property parsedObj (js ''metadata''))"

text \<open>Lines 90 to 129: the extraction of an embedded object.\<close>

definition extract_object :: "world \<Rightarrow> jsstring \<Rightarrow> io_event list \<times> tool_result option" where
  "extract_object w toolCallOutput =
     (let possibleJson = candidate toolCallOutput;
          failed = (\<lambda>extractErr. ConsoleLog ''Failed to extract valid JSON object'' #
                                 logJsonParseAttempt w possibleJson False (Some extractErr))
      in case JSON_parse possibleJson of
           Inl extractErr \<Rightarrow> (failed extractErr, None)
         | Inr parsedObj \<Rightarrow>
             (let ev = logJsonParseAttempt w possibleJson True None
              in if expected_structure parsedObj then
                   (let ev' = ev @ [ConsoleLog ''Successfully extracted valid JSON object from truncated response'']
                    in case plus_string (get_property parsedObj (js ''output'')) truncated_recovered_note of
                         Inl extractErr \<Rightarrow> (ev' @ failed extractErr, None)
                       | Inr annotated \<Rightarrow>
                           (ev', Some \<lparr>output = annotated,
                                       metadata = get_property parsedObj (js ''metadata'')\<rparr>))
                 else (ev, None)))"

definition patch_triggered :: "jsstring \<Rightarrow> bool" where
  "patch_triggered toolCallOutput =
     (let lastOpenBrace = lastIndexOf toolCallOutput 0x7B;
          lastCloseBrace = lastIndexOf toolCallOutput 0x7D
      in lastOpenBrace \<noteq> - 1 \<and> (lastCloseBrace = - 1 \<or> lastCloseBrace < lastOpenBrace))"

definition extraction_triggered :: "jsstring \<Rightarrow> bool" where
  "extraction_triggered toolCallOutput =
     (let lastOpenBrace = lastIndexOf toolCallOutput 0x7B;
          lastCloseBrace = lastIndexOf toolCallOutput 0x7D
      in lastOpenBrace \<noteq> - 1 \<and> lastCloseBrace \<noteq> - 1 \<and> lastCloseBrace > lastOpenBrace)"

text \<open>Lines 61 to 131: the recovery attempts after a failed direct decode.\<close>

definition recover :: "world \<Rightarrow> jsstring \<Rightarrow> io_event list \<times> tool_result option" where
  "recover w toolCallOutput =
     (if length toolCallOutput > 0 then
        (let ev1 = [ConsoleLog ''Standard JSON parsing failed, attempting recovery...''];
             (ev2, patched) =
               (if patch_triggered toolCallOutput
                then (case close_brace_patch w toolCallOutput of
                        (ev, r) \<Rightarrow> (ConsoleLog ''Detected potentially truncated JSON without closing brace'' # ev, r))
                else ([], None))
         in case patched of
              Some r \<Rightarrow> (ev1 @ ev2, Some r)
            | None \<Rightarrow>
                (if extraction_triggered toolCallOutput
                 then (case extract_object w toolCallOutput of
                         (ev3, r) \<Rightarrow>
                           (ev1 @ ev2 @
                            ConsoleLog ''Attempting to extract complete JSON object from truncated response'' # ev3, r))
                 else (ev1 @ ev2, None)))
      else ([], None))"

text \<open>Lines 44 to 135: the body of the outer \<open>try\<close>, which rethrows the first error.\<close>

definition try_block :: "world \<Rightarrow> jsstring \<Rightarrow> io_event list \<times> (js_error + tool_result)" where
  "try_block w toolCallOutput =
     (let ev0 = (if DEBUG w then [ConsoleLog ''Attempting to parse tool call output''] else [])
      in case direct_decode toolCallOutput of
           Inr r \<Rightarrow> (ev0 @ logJsonParseAttempt w toolCallOutput True None, Inr r)
         | Inl parseErr \<Rightarrow>
             (case recover w toolCallOutput of
                (ev, Some r) \<Rightarrow>
                  (ev0 @ logJsonParseAttempt w toolCallOutput False (Some parseErr) @ ev, Inr r)
              | (ev, None) \<Rightarrow>
                  (ev0 @ logJsonParseAttempt w toolCallOutput False (Some parseErr) @ ev,
                   Inl parseErr)))"

definition possibleTruncation :: "jsstring \<Rightarrow> bool" where
  "possibleTruncation toolCallOutput =
     (length toolCallOutput > 0 \<and> \<not> endsWith toolCallOutput 0x7D \<and> includes_js toolCallOutput 0x7B)"

definition fallback_metadata :: jsvalue where
  "fallback_metadata =
     JObj [(js ''exit_code'', JNum (Dec False 1 0)), (js ''duration_seconds'', JNum (Dec False 0 0))]"

text \<open>Lines 136 to 181: the handler of the outer \<open>try\<close>.\<close>

definition catch_block :: "world \<Rightarrow> jsstring \<Rightarrow> js_error \<Rightarrow> io_event list \<times> (js_error + tool_result)" where
  "catch_block w toolCallOutput err =
     ([ConsoleLog ''JSON parse error'', ConsoleLog ''Raw output length''] @
      (if possibleTruncation toolCallOutput
       then [ConsoleLog ''Possible truncation detected: JSON starts but does not properly end'']
       else []) @
      writeErrorLog w,
      Inr \<lparr>output = JStr (if possibleTruncation toolCallOutput then truncation_message
                          else generic_message),
           metadata = fallback_metadata\<rparr>)"

definition parseToolCallOutput :: "world \<Rightarrow> jsstring \<Rightarrow> io_event list \<times> (js_error + tool_result)" where
  "parseToolCallOutput w toolCallOutput =
     (case try_block w toolCallOutput of
        (ev, Inr r) \<Rightarrow> (ev, Inr r)
      | (ev, Inl err) \<Rightarrow>
          (case catch_block w toolCallOutput err of (ev', r) \<Rightarrow> (ev @ ev', r)))"

text \<open>The value a call returns, and the operations it issues.\<close>

definition decode_result :: "world \<Rightarrow> jsstring \<Rightarrow> js_error + tool_result" where
  "decode_result w raw = snd (parseToolCallOutput w raw)"

definition decode_effects :: "world \<Rightarrow> jsstring \<Rightarrow> io_event list" where
  "decode_effects w raw = fst (parseToolCallOutput w raw)"

section \<open>The argument decoder (parsers.ts)\<close>

text \<open>
  The object \<open>parseToolCallArguments\<close> builds, with \<open>undefined\<close> as \<open>None\<close>. \<open>cmd\<close> is the
  array that \<open>toStringArray\<close> hands back, so its elements are values.
\<close>

record ExecInput =
  cmd :: "jsvalue list"
  workdir :: "jsstring option"
  timeoutInMillis :: "jsnumber option"

definition is_string :: "jsvalue \<Rightarrow> bool" where
  "is_string item = (case item of JStr s \<Rightarrow> True | _ \<Rightarrow> False)"

definition toStringArray :: "jsvalue \<Rightarrow> jsvalue list option" where
  "toStringArray obj =
     (case obj of
        JArr items \<Rightarrow> if list_all is_string items then Some items else None
      | _ \<Rightarrow> None)"

definition parseToolCallArguments :: "jsstring \<Rightarrow> io_event list \<times> ExecInput option" where
  "parseToolCallArguments toolCallArguments =
     (case JSON_parse toolCallArguments of
        Inl err \<Rightarrow> ([ConsoleLog ''Failed to parse toolCall.arguments''], None)
      | Inr json \<Rightarrow>
          if \<not> typeof_object json \<or> json = JNull \<or> json = JUndefined then ([], None)
          else
            (case (case toStringArray (get_property json (js ''cmd'')) of
                     Some a \<Rightarrow> Some a
                   | None \<Rightarrow> toStringArray (get_property json (js ''command''))) of
               None \<Rightarrow> ([], None)
             | Some commandArray \<Rightarrow>
                 ([], Some \<lparr>cmd = commandArray,
                            workdir = (case get_property json (js ''workdir'') of
                                         JStr s \<Rightarrow> Some s | _ \<Rightarrow> None),
                            timeoutInMillis = (case get_property json (js ''timeout'') of
                                                 JNum x \<Rightarrow> Some x | _ \<Rightarrow> None)\<rparr>)))"

definition decode_arguments :: "jsstring \<Rightarrow> ExecInput option" where
  "decode_arguments raw = snd (parseToolCallArguments raw)"

section \<open>JSON.stringify\<close>

text \<open>
  The encoder of a result is \<open>JSON.stringify\<close> of the object, as \<open>generateTestOutput\<close> of
  debug-json-test.ts writes it. A string is quoted by QuoteJSONString: the short escapes,
  \<open>\uXXXX\<close> in lower-case hexadecimal for the other control characters and for a surrogate
  that is not half of a pair, and every other code unit as it is. Members are written in the
  order of the list.
\<close>

definition hex_digit :: "nat \<Rightarrow> 16 word" where
  "hex_digit n = (if n < 10 then of_nat (48 + n) else of_nat (87 + n))"

definition unicode_escape :: "16 word \<Rightarrow> jsstring" where
  "unicode_escape c =
     [0x5C, 0x75, hex_digit (unat c div 4096), hex_digit (unat c div 256 mod 16),
      hex_digit (unat c div 16 mod 16), hex_digit (unat c mod 16)]"

definition is_high_surrogate :: "16 word \<Rightarrow> bool" where
  "is_high_surrogate c = (0xD800 \<le> c \<and> c \<le> 0xDBFF)"

definition is_low_surrogate :: "16 word \<Rightarrow> bool" where
  "is_low_surrogate c = (0xDC00 \<le> c \<and> c \<le> 0xDFFF)"

definition quote_unit :: "16 word \<Rightarrow> jsstring" where
  "quote_unit c =
     (if c = 0x08 then [0x5C, 0x62]
      else if c = 0x09 then [0x5C, 0x74]
      else if c = 0x0A then [0x5C, 0x6E]
      else if c = 0x0C then [0x5C, 0x66]
      else if c = 0x0D then [0x5C, 0x72]
      else if c = 0x22 then [0x5C, 0x22]
      else if c = 0x5C then [0x5C, 0x5C]
      else if c < 0x20 \<or> is_high_surrogate c \<or> is_low_surrogate c then unicode_escape c
      else [c])"

fun quote_body :: "jsstring \<Rightarrow> jsstring" where
  "quote_body [] = []"
| "quote_body [c] = quote_unit c"
| "quote_body (c # d # cs) =
     (if is_high_surrogate c \<and> is_low_surrogate d then c # d # quote_body cs
      else quote_unit c @ quote_body (d # cs))"

definition QuoteJSONString :: "jsstring \<Rightarrow> jsstring" where
  "QuoteJSONString s = 0x22 # quote_body s @ [0x22]"

fun join_with_comma :: "jsstring list \<Rightarrow> jsstring" where
  "join_with_comma [] = []"
| "join_with_comma [x] = x"
| "join_with_comma (x # y # r) = x @ [0x2C] @ join_with_comma (y # r)"

fun JSON_stringify :: "jsvalue \<Rightarrow> jsstring option"
  and stringify_list :: "jsvalue list \<Rightarrow> jsstring list"
  and stringify_props :: "(jsstring \<times> jsvalue) list \<Rightarrow> jsstring list" where
  "JSON_stringify JUndefined = None"
| "JSON_stringify JNull = Some (js ''null'')"
| "JSON_stringify (JBool b) = Some (if b then js ''true'' else js ''false'')"
| "JSON_stringify (JNum x) = Some (number_to_string x)"
| "JSON_stringify (JStr s) = Some (QuoteJSONString s)"
| "JSON_stringify (JArr xs) = Some ([0x5B] @ join_with_comma (stringify_list xs) @ [0x5D])"
| "JSON_stringify (JObj ms) = Some ([0x7B] @ join_with_comma (stringify_props ms) @ [0x7D])"
| "stringify_list [] = []"
| "stringify_list (x # xs) =
     (case JSON_stringify x of None \<Rightarrow> js ''null'' | Some t \<Rightarrow> t) # stringify_list xs"
| "stringify_props [] = []"
| "stringify_props ((k, v) # ms) =
     (case JSON_stringify v of
        None \<Rightarrow> stringify_props ms
      | Some t \<Rightarrow> (QuoteJSONString k @ [0x3A] @ t) # stringify_props ms)"

definition encode_result :: "tool_result \<Rightarrow> jsstring option" where
  "encode_result r = JSON_stringify (JObj [(js ''output'', output r), (js ''metadata'', metadata r)])"

section \<open>The declared shapes\<close>

text \<open>
  Modelled from the spec: the type \<open>ExecOutputMetadata\<close> is declared in
  agent/sandbox/interface.ts, which is not among the sources. The spec gives it as
  \<open>{ exit_code: integer, duration_seconds: real }\<close>, and a \<open>ToolResult\<close> as a text \<open>output\<close>
  with such a \<open>metadata\<close>. An integer or a real is here a number in normal form other than
  negative zero, an integer one with no fractional digits.
\<close>

definition real_number :: "jsnumber \<Rightarrow> bool" where
  "real_number x = (normal x \<and> (mant x = 0 \<longrightarrow> \<not> neg x))"

definition integer_number :: "jsnumber \<Rightarrow> bool" where
  "integer_number x = (real_number x \<and> is_integer x)"

definition ExecOutputMetadata :: "jsnumber \<Rightarrow> jsnumber \<Rightarrow> jsvalue" where
  "ExecOutputMetadata exit_code duration_seconds =
     JObj [(js ''exit_code'', JNum exit_code), (js ''duration_seconds'', JNum duration_seconds)]"

fun valid_metadata :: "jsvalue \<Rightarrow> bool" where
  "valid_metadata (JObj [(k1, JNum c), (k2, JNum d)]) =
     (k1 = js ''exit_code'' \<and> k2 = js ''duration_seconds'' \<and> integer_number c \<and> real_number d)"
| "valid_metadata v = False"

definition valid_ToolResult :: "tool_result \<Rightarrow> bool" where
  "valid_ToolResult r = (is_string (output r) \<and> valid_metadata (metadata r))"

section \<open>Observers and reference inputs\<close>

definition quiet :: world where
  "quiet = \<lparr>DEBUG = False, mkdir_ok = True, write_ok = True\<rparr>"

definition is_console :: "io_event \<Rightarrow> bool" where
  "is_console ev = (case ev of ConsoleLog line \<Rightarrow> True | _ \<Rightarrow> False)"

definition file_operations :: "io_event list \<Rightarrow> io_event list" where
  "file_operations evs = filter (\<lambda>ev. \<not> is_console ev) evs"

text \<open>
  The rule of the specification for the start of the candidate: the index of the earliest
  open brace whose count returns to zero, from index \<open>i\<close> on.
\<close>

fun first_matched_open :: "jsstring \<Rightarrow> nat \<Rightarrow> nat option" where
  "first_matched_open [] i = None"
| "first_matched_open (c # cs) i =
     (if c = 0x7B \<and> count_reaches_zero cs 1 then Some i else first_matched_open cs (Suc i))"

definition complete_payload :: jsstring where
  "complete_payload =
     js ''{\"output\":\"hello\",\"metadata\":{\"exit_code\":0,\"duration_seconds\":1.5}}''"

definition missing_close_payload :: jsstring where
  "missing_close_payload =
     js ''{\"output\":\"hello\",\"metadata\":{\"exit_code\":0,\"duration_seconds\":1.5}''"

definition trailing_open_payload :: jsstring where
  "trailing_open_payload =
     js ''{\"output\":\"a\",\"metadata\":{\"exit_code\":0,\"duration_seconds\":0}}TRAILING_GARBAGE{''"

definition wrapped_payload :: jsstring where
  "wrapped_payload = js ''x{\"output\":\"a\",\"metadata\":{\"exit_code\":0,\"duration_seconds\":0}}y''"

definition unrelated_object_payload :: jsstring where
  "unrelated_object_payload = js ''{\"a\":1}''"

definition unclosed_object_payload :: jsstring where
  "unclosed_object_payload = js ''{\"a\":1''"

definition empty_command_payload :: jsstring where
  "empty_command_payload = js ''{\"cmd\":[],\"timeout\":-5}''"

definition list_command_payload :: jsstring where
  "list_command_payload = js ''{\"cmd\":[\"ls\",\"-la\"]}''"

text \<open>What may follow a number in a text: no digit, and nothing that continues the number.\<close>

definition no_digit_ahead :: "jsstring \<Rightarrow> bool" where
  "no_digit_ahead rest = (case rest of [] \<Rightarrow> True | c # r \<Rightarrow> \<not> is_digit c)"

definition ends_number :: "jsstring \<Rightarrow> bool" where
  "ends_number rest =
     (case rest of [] \<Rightarrow> True | c # r \<Rightarrow> \<not> is_digit c \<and> c \<noteq> 0x2E \<and> c \<noteq> 0x65 \<and> c \<noteq> 0x45)"

section \<open>The returned value does not depend on the world\<close>

lemma close_brace_patch_result: "snd (close_brace_patch w raw) = snd (close_brace_patch w' raw)"
  by (simp add: close_brace_patch_def Let_def split: sum.splits prod.splits)

lemma extract_object_result: "snd (extract_object w raw) = snd (extract_object w' raw)"
  by (simp add: extract_object_def Let_def split: sum.splits prod.splits)

lemma recover_result: "snd (recover w raw) = snd (recover w' raw)"
  using close_brace_patch_result[of w raw w'] extract_object_result[of w raw w']
  by (auto simp add: recover_def Let_def split: option.splits prod.splits)

lemma try_block_result: "snd (try_block w raw) = snd (try_block w' raw)"
  using recover_result[of w raw w']
  by (auto simp add: try_block_def Let_def split: sum.splits option.splits prod.splits)

lemma decode_result_world: "decode_result w raw = decode_result w' raw"
  using try_block_result[of w raw w']
  by (auto simp add: decode_result_def parseToolCallOutput_def catch_block_def
           split: sum.splits prod.splits)

lemma decode_result_returned:
  "snd (try_block w raw) = Inr r \<Longrightarrow> decode_result w raw = Inr r"
  by (auto simp: decode_result_def parseToolCallOutput_def split: prod.splits sum.splits)

lemma decode_result_exhausted:
  "snd (try_block w raw) = Inl err \<Longrightarrow>
   decode_result w raw =
     Inr \<lparr>output = JStr (if possibleTruncation raw then truncation_message else generic_message),
          metadata = fallback_metadata\<rparr>"
  by (auto simp: decode_result_def parseToolCallOutput_def catch_block_def
           split: prod.splits sum.splits)

lemma try_block_direct: "direct_decode raw = Inr r \<Longrightarrow> snd (try_block w raw) = Inr r"
  by (simp add: try_block_def Let_def)

lemma fallback_metadata_eq: "fallback_metadata = ExecOutputMetadata (Dec False 1 0) (Dec False 0 0)"
  by (simp add: fallback_metadata_def ExecOutputMetadata_def)

lemma fallback_metadata_valid: "valid_metadata fallback_metadata"
  by (simp add: fallback_metadata_def integer_number_def real_number_def normal_def
        is_integer_def)

lemma empty_exhausted: "snd (try_block w []) = Inl SyntaxError"
  by (simp add: try_block_def direct_decode_def JSON_parse_def parse_tokens_def recover_def)

lemma messages_differ: "truncation_message \<noteq> generic_message"
  by code_simp

section \<open>Totality of the result decoder\<close>

text \<open>
  Claim C1. For every input string, \<open>parseToolCallOutput\<close> returns a result and raises
  nothing past its boundary; and whenever the body of its outer \<open>try\<close> throws (every failure
  path), the result is a well-formed ToolResult whose metadata is
  \<open>{exit_code: 1, duration_seconds: 0}\<close>.
\<close>

theorem decode_never_raises:
  "\<exists>r. decode_result w raw = Inr r \<and>
       (snd (try_block w raw) = Inl err \<longrightarrow>
          valid_ToolResult r \<and>
          metadata r = ExecOutputMetadata (Dec False 1 0) (Dec False 0 0))"
proof (cases "snd (try_block w raw)")
  case (Inl e)
  from decode_result_exhausted[OF Inl] fallback_metadata_valid show ?thesis
    by (simp add: valid_ToolResult_def is_string_def fallback_metadata_eq)
next
  case (Inr r)
  from decode_result_returned[OF Inr] Inr show ?thesis by simp
qed

theorem decode_never_raises_witness:
  "\<exists>r. decode_result quiet [] = Inr r \<and> snd (try_block quiet []) = Inl SyntaxError \<and>
       valid_ToolResult r \<and> metadata r = ExecOutputMetadata (Dec False 1 0) (Dec False 0 0)"
  using decode_never_raises[of quiet "[]" SyntaxError] empty_exhausted[of quiet]
  by auto

section \<open>The payload that misses one closing brace\<close>

lemma missing_close_facts:
  "\<not> patch_triggered missing_close_payload"
  "extraction_triggered missing_close_payload"
  "candidate missing_close_payload = js ''{\"exit_code\":0,\"duration_seconds\":1.5}''"
  "JSON_parse (missing_close_payload @ [0x7D]) =
     Inr (JObj [(js ''output'', JStr (js ''hello'')),
                (js ''metadata'', ExecOutputMetadata (Dec False 0 0) (Dec False 15 (- 1)))])"
  "decode_result quiet missing_close_payload =
     Inr \<lparr>output = JStr (js ''Failed to parse JSON result. Check logs for details.''),
          metadata = ExecOutputMetadata (Dec False 1 0) (Dec False 0 0)\<rparr>"
  by code_simp+

text \<open>
  Claim C2, on the code. For the payload
  \<open>{"output":"hello","metadata":{"exit_code":0,"duration_seconds":1.5}\<close> the last close brace
  follows the last open brace, so the close-brace patch is not tried, although the payload
  with one brace appended parses to the intended object. The extraction takes the metadata
  object as its candidate, which has neither key, and the call returns the generic failure
  value.
\<close>

theorem missing_close_not_patched:
  "\<not> patch_triggered missing_close_payload \<and>
   extraction_triggered missing_close_payload \<and>
   candidate missing_close_payload = js ''{\"exit_code\":0,\"duration_seconds\":1.5}'' \<and>
   JSON_parse (missing_close_payload @ [0x7D]) =
     Inr (JObj [(js ''output'', JStr (js ''hello'')),
                (js ''metadata'', ExecOutputMetadata (Dec False 0 0) (Dec False 15 (- 1)))]) \<and>
   decode_result w missing_close_payload =
     Inr \<lparr>output = JStr (js ''Failed to parse JSON result. Check logs for details.''),
          metadata = ExecOutputMetadata (Dec False 1 0) (Dec False 0 0)\<rparr>"
  using missing_close_facts decode_result_world[of w missing_close_payload quiet]
  by simp

section \<open>The payload with trailing garbage and an open brace\<close>

lemma trailing_open_facts:
  "patch_triggered trailing_open_payload"
  "\<not> extraction_triggered trailing_open_payload"
  "snd (close_brace_patch quiet trailing_open_payload) = None"
  "decode_result quiet trailing_open_payload =
     Inr \<lparr>output = JStr (js ''Response appears to be truncated due to token limits. Try a smaller command output or check logs for details.''),
          metadata = ExecOutputMetadata (Dec False 1 0) (Dec False 0 0)\<rparr>"
  "snd (try_block quiet trailing_open_payload) = Inl SyntaxError"
  by code_simp+

text \<open>
  Claim C3 as stated fails: for the payload
  \<open>{"output":"a","metadata":{"exit_code":0,"duration_seconds":0}}TRAILING_GARBAGE{\<close> the call
  does not return the output \<open>a\<close> with the note of a recovered portion, whatever the metadata.
\<close>

theorem trailing_open_counterexample:
  "\<not> (\<exists>m. decode_result quiet trailing_open_payload =
            Inr \<lparr>output = JStr (js ''a'' @ truncated_recovered_note), metadata = m\<rparr>)"
proof -
  have "js ''Response appears to be truncated due to token limits. Try a smaller command output or check logs for details.''
          \<noteq> js ''a'' @ truncated_recovered_note"
    by code_simp
  with trailing_open_facts(4) show ?thesis by simp
qed

text \<open>
  Claim C3, amended. For that payload the last open brace follows the last close brace, so
  the extraction of an embedded object is not triggered. The close-brace patch is tried and
  fails, and the call returns the truncation message with
  \<open>{exit_code: 1, duration_seconds: 0}\<close>.
\<close>

theorem trailing_open_falls_back:
  "\<not> extraction_triggered trailing_open_payload \<and>
   patch_triggered trailing_open_payload \<and>
   snd (close_brace_patch w trailing_open_payload) = None \<and>
   decode_result w trailing_open_payload =
     Inr \<lparr>output = JStr (js ''Response appears to be truncated due to token limits. Try a smaller command output or check logs for details.''),
          metadata = ExecOutputMetadata (Dec False 1 0) (Dec False 0 0)\<rparr>"
  using trailing_open_facts decode_result_world[of w trailing_open_payload quiet]
    close_brace_patch_result[of w trailing_open_payload quiet]
  by simp

section \<open>The fallback value\<close>

text \<open>
  Claim C4. Whenever all recovery is exhausted (the body of the outer \<open>try\<close> throws), the
  metadata is \<open>{exit_code: 1, duration_seconds: 0}\<close>, and the output is the truncation message
  exactly when the input is not empty, does not end with a close brace and contains an open
  brace; otherwise it is the generic message, in particular for the empty input and for an
  input without braces. The empty input always ends there.
\<close>

theorem fallback_value:
  assumes "snd (try_block w raw) = Inl err"
  shows "\<exists>msg. decode_result w raw =
           Inr \<lparr>output = JStr msg, metadata = ExecOutputMetadata (Dec False 1 0) (Dec False 0 0)\<rparr> \<and>
         (msg = js ''Response appears to be truncated due to token limits. Try a smaller command output or check logs for details.''
            \<longleftrightarrow> raw \<noteq> [] \<and> last raw \<noteq> 0x7D \<and> 0x7B \<in> set raw) \<and>
         (msg \<noteq> js ''Response appears to be truncated due to token limits. Try a smaller command output or check logs for details.''
            \<longrightarrow> msg = js ''Failed to parse JSON result. Check logs for details.'') \<and>
         (raw = [] \<or> (0x7B \<notin> set raw \<and> 0x7D \<notin> set raw)
            \<longrightarrow> msg = js ''Failed to parse JSON result. Check logs for details.'') \<and>
         snd (try_block w []) = Inl SyntaxError"
  using decode_result_exhausted[OF assms] messages_differ empty_exhausted[of w]
  by (auto simp: possibleTruncation_def endsWith_def includes_js_def fallback_metadata_eq
        truncation_message_def generic_message_def)

theorem fallback_value_witness:
  "snd (try_block quiet trailing_open_payload) = Inl SyntaxError \<and>
   decode_result quiet trailing_open_payload =
     Inr \<lparr>output = JStr (js ''Response appears to be truncated due to token limits. Try a smaller command output or check logs for details.''),
          metadata = ExecOutputMetadata (Dec False 1 0) (Dec False 0 0)\<rparr> \<and>
   decode_result quiet [] =
     Inr \<lparr>output = JStr (js ''Failed to parse JSON result. Check logs for details.''),
          metadata = ExecOutputMetadata (Dec False 1 0) (Dec False 0 0)\<rparr>"
  using fallback_value[OF trailing_open_facts(5)] fallback_value[OF empty_exhausted[of quiet]]
    trailing_open_facts(4,5)
  by auto

section \<open>The start of the extracted candidate\<close>

lemma lastIndexOf_split:
  "c \<notin> set post \<Longrightarrow> lastIndexOf (pre @ c # post) c = int (length pre)"
proof -
  assume "c \<notin> set post"
  then have "takeWhile (\<lambda>x. x \<noteq> c) (rev post @ c # rev pre) = rev post"
    by (subst takeWhile_append2) auto
  then show ?thesis by (simp add: lastIndexOf_def)
qed

lemma lastIndexOf_absent: "lastIndexOf s c = - 1 \<longleftrightarrow> c \<notin> set s"
proof
  assume none: "lastIndexOf s c = - 1"
  show "c \<notin> set s"
  proof
    assume "c \<in> set s"
    then obtain pre post where "s = pre @ c # post" "c \<notin> set post"
      by (meson split_list_last)
    with none show False
      by (simp add: lastIndexOf_split)
  qed
qed (simp add: lastIndexOf_def)

lemma count_reaches_zero_flat:
  "0x7B \<notin> set post \<Longrightarrow> 0x7D \<in> set post \<Longrightarrow> count_reaches_zero post 1"
  by (induction post) (auto simp: Let_def)

lemma scan_from_past: "lastOpenBrace < int i \<Longrightarrow> scan_from xs i lastOpenBrace start = start"
  by (cases xs) auto

lemma scan_from_last:
  "c = 0x7B \<Longrightarrow> count_reaches_zero post 1 \<Longrightarrow>
   scan_from (pre @ c # post) i (int (i + length pre)) start = i + length pre"
proof (induction pre arbitrary: i start)
  case Nil
  then show ?case by (simp add: scan_from_past)
next
  case (Cons p ps)
  from Cons.IH[OF Cons.prems, of "Suc i"] show ?case by simp
qed

text \<open>
  Whenever the extraction is triggered, the scan of lines 93 to 108 ends with \<open>start\<close> at the
  last open brace: that brace is matched by the close brace after it, and it is the last index
  the loop visits.
\<close>

theorem find_start_is_last_open:
  assumes "extraction_triggered raw"
  shows "int (find_start raw (lastIndexOf raw 0x7B)) = lastIndexOf raw 0x7B"
proof -
  from assms have o: "lastIndexOf raw 0x7B \<noteq> - 1" and c: "lastIndexOf raw 0x7D \<noteq> - 1"
    and lt: "lastIndexOf raw 0x7B < lastIndexOf raw 0x7D"
    by (auto simp: extraction_triggered_def Let_def)
  from o obtain pre post where raw: "raw = pre @ 0x7B # post" and post: "0x7B \<notin> set post"
    by (meson lastIndexOf_absent split_list_last)
  from c obtain pre' post' where raw': "raw = pre' @ 0x7D # post'" and post': "0x7D \<notin> set post'"
    by (meson lastIndexOf_absent split_list_last)
  have lo: "lastIndexOf raw 0x7B = int (length pre)"
    using raw post by (simp add: lastIndexOf_split)
  have lc: "lastIndexOf raw 0x7D = int (length pre')"
    using raw' post' by (simp add: lastIndexOf_split)
  from lt lo lc have len: "length pre < length pre'" by simp
  have "raw ! length pre' = 0x7D" using raw' by simp
  moreover have "raw ! length pre' = post ! (length pre' - length pre - 1)"
    using raw len by (simp add: nth_append nth_Cons')
  moreover have "length pre' - length pre - 1 < length post"
  proof -
    have "length pre' < length raw" using raw' by simp
    then show ?thesis using raw len by simp
  qed
  ultimately have "0x7D \<in> set post" by (metis nth_mem)
  with post have "count_reaches_zero post 1" by (rule count_reaches_zero_flat)
  then have "scan_from (pre @ 0x7B # post) 0 (int (0 + length pre)) 0 = 0 + length pre"
    by (intro scan_from_last) simp_all
  then show ?thesis using raw lo by (simp add: find_start_def)
qed

lemma wrapped_facts:
  "extraction_triggered wrapped_payload"
  "first_matched_open wrapped_payload 0 = Some 1"
  "lastIndexOf wrapped_payload 0x7B = 26"
  "find_start wrapped_payload (lastIndexOf wrapped_payload 0x7B) = 26"
  "candidate wrapped_payload = js ''{\"exit_code\":0,\"duration_seconds\":0}}''"
  "JSON_parse (candidate wrapped_payload) = Inl SyntaxError"
  "JSON_parse (substring wrapped_payload 1 (lastIndexOf wrapped_payload 0x7D + 1)) =
     Inr (JObj [(js ''output'', JStr (js ''a'')),
                (js ''metadata'', ExecOutputMetadata (Dec False 0 0) (Dec False 0 0))])"
  "decode_result quiet wrapped_payload =
     Inr \<lparr>output = JStr (js ''Response appears to be truncated due to token limits. Try a smaller command output or check logs for details.''),
          metadata = ExecOutputMetadata (Dec False 1 0) (Dec False 0 0)\<rparr>"
  by code_simp+

theorem find_start_is_last_open_witness:
  "extraction_triggered wrapped_payload \<and>
   int (find_start wrapped_payload (lastIndexOf wrapped_payload 0x7B)) = 26"
  using find_start_is_last_open[OF wrapped_facts(1)] wrapped_facts(1,3) by simp

text \<open>
  Claim C5, on the code. In \<open>x{"output":"a","metadata":{"exit_code":0,"duration_seconds":0}}y\<close>
  the earliest open brace whose count returns to zero is at index 1, and the substring from
  there through the last close brace parses to the whole object. The code starts the candidate
  at index 26, the brace of the metadata object, so the candidate is that object with one brace
  too many, it does not parse, and the call returns the truncation message.
\<close>

theorem wrapped_object_not_recovered:
  "extraction_triggered wrapped_payload \<and>
   first_matched_open wrapped_payload 0 = Some 1 \<and>
   find_start wrapped_payload (lastIndexOf wrapped_payload 0x7B) = 26 \<and>
   candidate wrapped_payload = js ''{\"exit_code\":0,\"duration_seconds\":0}}'' \<and>
   JSON_parse (candidate wrapped_payload) = Inl SyntaxError \<and>
   JSON_parse (substring wrapped_payload 1 (lastIndexOf wrapped_payload 0x7D + 1)) =
     Inr (JObj [(js ''output'', JStr (js ''a'')),
                (js ''metadata'', ExecOutputMetadata (Dec False 0 0) (Dec False 0 0))]) \<and>
   decode_result w wrapped_payload =
     Inr \<lparr>output = JStr (js ''Response appears to be truncated due to token limits. Try a smaller command output or check logs for details.''),
          metadata = ExecOutputMetadata (Dec False 1 0) (Dec False 0 0)\<rparr>"
  using wrapped_facts decode_result_world[of w wrapped_payload quiet]
  by simp

section \<open>The direct decode\<close>

lemma complete_never_undefined: "v \<noteq> JUndefined \<Longrightarrow> complete v fs \<noteq> SDone JUndefined"
  by (cases "(v, fs)" rule: complete.cases) auto

lemma value_start_never_undefined: "value_start fs t \<noteq> SDone JUndefined"
  by (cases t) (simp_all add: complete_never_undefined)

lemma step_never_undefined: "step s t \<noteq> SDone JUndefined"
  by (cases s; cases t) (simp_all add: complete_never_undefined value_start_never_undefined)

lemma parse_tokens_never_undefined: "parse_tokens ts \<noteq> Inr JUndefined"
proof (cases ts rule: rev_cases)
  case Nil
  then show ?thesis by (simp add: parse_tokens_def)
next
  case (snoc us t)
  then show ?thesis
    using step_never_undefined[of "foldl step (SValue []) us" t]
    by (auto simp: parse_tokens_def split: pstate.splits)
qed

lemma JSON_parse_never_undefined: "JSON_parse raw \<noteq> Inr JUndefined"
  by (simp add: JSON_parse_def parse_tokens_never_undefined split: option.splits)

lemma unrelated_object_facts:
  "JSON_parse unrelated_object_payload = Inr (JObj [(js ''a'', JNum (Dec False 1 0))])"
  "direct_decode unrelated_object_payload = Inr \<lparr>output = JUndefined, metadata = JUndefined\<rparr>"
  "\<not> has_property (JObj [(js ''a'', JNum (Dec False 1 0))]) (js ''output'')"
  "\<not> has_property (JObj [(js ''a'', JNum (Dec False 1 0))]) (js ''metadata'')"
  by code_simp+

text \<open>
  Claim C6 as stated fails: \<open>{"a":1}\<close> parses to an object with neither \<open>output\<close> nor
  \<open>metadata\<close>, and the direct decode succeeds on it, with both fields \<open>undefined\<close>.
\<close>

theorem direct_decode_unchecked_counterexample:
  "\<exists>v. JSON_parse unrelated_object_payload = Inr v \<and>
       \<not> has_property v (js ''output'') \<and> \<not> has_property v (js ''metadata'') \<and>
       direct_decode unrelated_object_payload = Inr \<lparr>output = JUndefined, metadata = JUndefined\<rparr>"
  using unrelated_object_facts by simp

text \<open>
  Claim C6, amended. The direct decode succeeds exactly on the inputs that \<open>JSON.parse\<close>
  accepts with a value other than \<open>null\<close>. The call then returns that value's \<open>output\<close> and
  \<open>metadata\<close> properties with nothing appended, \<open>undefined\<close> for a property that is missing;
  for a parsed object of the wire shape these are its two fields as they are.
\<close>

theorem direct_decode_succeeds:
  "((\<exists>r. direct_decode raw = Inr r) \<longleftrightarrow> (\<exists>v. JSON_parse raw = Inr v \<and> v \<noteq> JNull)) \<and>
   (JSON_parse raw = Inr v \<and> v \<noteq> JNull \<longrightarrow>
      direct_decode raw = Inr \<lparr>output = get_property v (js ''output''),
                               metadata = get_property v (js ''metadata'')\<rparr> \<and>
      decode_result w raw = Inr \<lparr>output = get_property v (js ''output''),
                                 metadata = get_property v (js ''metadata'')\<rparr>) \<and>
   (JSON_parse raw = Inr (JObj [(js ''output'', JStr s), (js ''metadata'', m)]) \<longrightarrow>
      decode_result w raw = Inr \<lparr>output = JStr s, metadata = m\<rparr>)"
proof -
  have keys: "js ''metadata'' \<noteq> js ''output''" by code_simp
  have a: "direct_decode raw = Inr \<lparr>output = get_property u (js ''output''),
                                    metadata = get_property u (js ''metadata'')\<rparr>"
    if "JSON_parse raw = Inr u" "u \<noteq> JNull" for u
    using that JSON_parse_never_undefined[of raw]
    by (auto simp: direct_decode_def destructure_def)
  have b: "decode_result w raw = Inr r" if "direct_decode raw = Inr r" for r
    using that by (simp add: decode_result_returned try_block_direct)
  have c: "\<exists>u. JSON_parse raw = Inr u \<and> u \<noteq> JNull" if "direct_decode raw = Inr r" for r
    using that by (auto simp: direct_decode_def destructure_def split: sum.splits if_splits)
  have d: "decode_result w raw = Inr \<lparr>output = JStr s, metadata = m\<rparr>"
    if "JSON_parse raw = Inr (JObj [(js ''output'', JStr s), (js ''metadata'', m)])"
    using b[OF a[OF that]] keys by (simp add: get_property_def)
  from a b c d show ?thesis by blast
qed

lemma complete_payload_parse:
  "JSON_parse complete_payload =
     Inr (JObj [(js ''output'', JStr (js ''hello'')),
                (js ''metadata'', ExecOutputMetadata (Dec False 0 0) (Dec False 15 (- 1)))])"
  by code_simp

theorem direct_decode_succeeds_witness:
  "JSON_parse complete_payload =
     Inr (JObj [(js ''output'', JStr (js ''hello'')),
                (js ''metadata'', ExecOutputMetadata (Dec False 0 0) (Dec False 15 (- 1)))]) \<and>
   decode_result quiet complete_payload =
     Inr \<lparr>output = JStr (js ''hello''),
          metadata = ExecOutputMetadata (Dec False 0 0) (Dec False 15 (- 1))\<rparr>"
  using direct_decode_succeeds[of complete_payload _ quiet "js ''hello''"
          "ExecOutputMetadata (Dec False 0 0) (Dec False 15 (- 1))"]
        complete_payload_parse
  by simp

section \<open>The argument decoder\<close>

lemma toStringArray_strings: "toStringArray obj = Some items \<Longrightarrow> list_all is_string items"
  by (auto simp: toStringArray_def split: jsvalue.splits if_splits)

lemma empty_command_decoded:
  "decode_arguments empty_command_payload =
     Some \<lparr>cmd = [], workdir = None, timeoutInMillis = Some (Dec True 5 0)\<rparr>"
  by code_simp

lemma list_command_decoded:
  "decode_arguments list_command_payload =
     Some \<lparr>cmd = [JStr (js ''ls''), JStr (js ''-la'')], workdir = None, timeoutInMillis = None\<rparr>"
  by code_simp

text \<open>
  Claim C7 as stated fails: \<open>{"cmd":[],"timeout":-5}\<close> yields a descriptor whose \<open>cmd\<close> is
  empty and whose timeout is the negative number \<open>-5\<close>.
\<close>

theorem descriptor_invariant_counterexample:
  "\<exists>d. decode_arguments empty_command_payload = Some d \<and> cmd d = [] \<and>
       timeoutInMillis d = Some (Dec True 5 0) \<and> neg (Dec True 5 0)"
  using empty_command_decoded by simp

text \<open>
  Claim C7, amended. Whenever \<open>parseToolCallArguments\<close> yields a descriptor, every element
  of \<open>cmd\<close> is text; \<open>cmd\<close> is the array under key \<open>cmd\<close>, or under \<open>command\<close> when \<open>cmd\<close> holds
  no array of text, and it may be empty. \<open>workdir\<close> is present exactly when key \<open>workdir\<close> holds
  text, and the timeout is present exactly when key \<open>timeout\<close> holds a number, which is taken
  as it is, of any sign and integral or not.
\<close>

theorem descriptor_shape:
  assumes "decode_arguments raw = Some d"
  shows "list_all is_string (cmd d) \<and>
         (\<exists>json. JSON_parse raw = Inr json \<and>
            (toStringArray (get_property json (js ''cmd'')) = Some (cmd d) \<or>
             toStringArray (get_property json (js ''cmd'')) = None \<and>
             toStringArray (get_property json (js ''command'')) = Some (cmd d)) \<and>
            workdir d = (case get_property json (js ''workdir'') of JStr s \<Rightarrow> Some s | _ \<Rightarrow> None) \<and>
            timeoutInMillis d =
              (case get_property json (js ''timeout'') of JNum x \<Rightarrow> Some x | _ \<Rightarrow> None))"
proof -
  from assms obtain json where p: "JSON_parse raw = Inr json"
    by (auto simp: decode_arguments_def parseToolCallArguments_def split: sum.splits)
  from assms p have
    "(toStringArray (get_property json (js ''cmd'')) = Some (cmd d) \<or>
      toStringArray (get_property json (js ''cmd'')) = None \<and>
      toStringArray (get_property json (js ''command'')) = Some (cmd d)) \<and>
     workdir d = (case get_property json (js ''workdir'') of JStr s \<Rightarrow> Some s | _ \<Rightarrow> None) \<and>
     timeoutInMillis d =
       (case get_property json (js ''timeout'') of JNum x \<Rightarrow> Some x | _ \<Rightarrow> None)"
    by (auto simp: decode_arguments_def parseToolCallArguments_def
             split: if_splits option.splits)
  moreover from this have "list_all is_string (cmd d)"
    using toStringArray_strings by blast
  ultimately show ?thesis using p by blast
qed

theorem descriptor_shape_witness:
  "decode_arguments list_command_payload =
     Some \<lparr>cmd = [JStr (js ''ls''), JStr (js ''-la'')], workdir = None, timeoutInMillis = None\<rparr> \<and>
   list_all is_string [JStr (js ''ls''), JStr (js ''-la'')]"
  using descriptor_shape[OF list_command_decoded] list_command_decoded by simp

section \<open>The diagnostic switch\<close>

lemma file_operations_append [simp]:
  "file_operations (xs @ ys) = file_operations xs @ file_operations ys"
  by (simp add: file_operations_def)

lemma file_operations_simps [simp]:
  "file_operations [] = []"
  "file_operations (ConsoleLog line # evs) = file_operations evs"
  "file_operations (MkDir dir # evs) = MkDir dir # file_operations evs"
  "file_operations (WriteFile dir prefix body # evs) = WriteFile dir prefix body # file_operations evs"
  by (simp_all add: file_operations_def is_console_def)

lemma logJsonParseAttempt_off: "\<not> DEBUG w \<Longrightarrow> logJsonParseAttempt w jsonString success error = []"
  by (simp add: logJsonParseAttempt_def)

lemma close_brace_patch_off:
  "\<not> DEBUG w \<Longrightarrow> file_operations (fst (close_brace_patch w raw)) = []"
  by (simp add: close_brace_patch_def Let_def logJsonParseAttempt_off split: sum.splits prod.splits)

lemma extract_object_off:
  "\<not> DEBUG w \<Longrightarrow> file_operations (fst (extract_object w raw)) = []"
  by (simp add: extract_object_def Let_def logJsonParseAttempt_off split: sum.splits prod.splits)

lemma recover_off: "\<not> DEBUG w \<Longrightarrow> file_operations (fst (recover w raw)) = []"
  using close_brace_patch_off[of w raw] extract_object_off[of w raw]
  by (auto simp: recover_def Let_def split: option.splits prod.splits)

lemma try_block_off: "\<not> DEBUG w \<Longrightarrow> file_operations (fst (try_block w raw)) = []"
  using recover_off[of w raw]
  by (auto simp: try_block_def Let_def logJsonParseAttempt_off
           split: sum.splits option.splits prod.splits)

lemma writeErrorLog_operations:
  "file_operations (writeErrorLog w) =
     MkDir ''logs'' # (if mkdir_ok w then [WriteFile ''logs'' ''json-parse-error'' Serialized] else [])"
  by (simp add: writeErrorLog_def)

lemma decode_effects_off:
  assumes "\<not> DEBUG w"
  shows "file_operations (decode_effects w raw) =
           (case snd (try_block w raw) of
              Inl err \<Rightarrow> MkDir ''logs'' #
                (if mkdir_ok w then [WriteFile ''logs'' ''json-parse-error'' Serialized] else [])
            | Inr r \<Rightarrow> [])"
  using try_block_off[OF assms, of raw] writeErrorLog_operations[of w]
  by (auto simp: decode_effects_def parseToolCallOutput_def catch_block_def
           split: prod.splits sum.splits)

text \<open>
  Claim C9 as stated fails: with the switch off, decoding the empty string writes the error
  report \<open>logs/json-parse-error-...\<close>.
\<close>

theorem switch_off_counterexample:
  "\<not> DEBUG quiet \<and>
   WriteFile ''logs'' ''json-parse-error'' Serialized \<in> set (decode_effects quiet [])"
  by (simp add: quiet_def decode_effects_def parseToolCallOutput_def try_block_def
        direct_decode_def JSON_parse_def parse_tokens_def recover_def logJsonParseAttempt_def
        catch_block_def writeErrorLog_def)

text \<open>
  Claim C9, amended. With the switch off, each of the three entry points of the recorder
  issues no operation at all, and the value a decode call returns is the one it returns with
  the switch on. The file operations of a decode call are then none when a stage returns, and
  the error report under \<open>logs\<close> (the directory, then the file \<open>json-parse-error\<close> if the
  directory could be made) when the call ends in the fallback; nothing is written under
  \<open>debug-logs\<close>.
\<close>

theorem switch_off:
  assumes "\<not> DEBUG w"
  shows "logCommandExecution w command outp exitCode duration = [] \<and>
         logJsonParseAttempt w jsonString success error = [] \<and>
         analyzeToolCallOutput w functionName argsString outp = [] \<and>
         decode_result w raw = decode_result (w\<lparr>DEBUG := True\<rparr>) raw \<and>
         file_operations (decode_effects w raw) =
           (case snd (try_block w raw) of
              Inl err \<Rightarrow> MkDir ''logs'' #
                (if mkdir_ok w then [WriteFile ''logs'' ''json-parse-error'' Serialized] else [])
            | Inr r \<Rightarrow> [])"
  using assms decode_effects_off[OF assms, of raw] decode_result_world[of w raw "w\<lparr>DEBUG := True\<rparr>"]
  by (simp add: logCommandExecution_def logJsonParseAttempt_def analyzeToolCallOutput_def)

theorem switch_off_witness:
  "\<not> DEBUG quiet \<and>
   logJsonParseAttempt quiet [] False (Some SyntaxError) = [] \<and>
   decode_result quiet [] = decode_result (quiet\<lparr>DEBUG := True\<rparr>) [] \<and>
   file_operations (decode_effects quiet []) =
     [MkDir ''logs'', WriteFile ''logs'' ''json-parse-error'' Serialized]"
proof -
  have off: "\<not> DEBUG quiet" by (simp add: quiet_def)
  have ok: "mkdir_ok quiet" by (simp add: quiet_def)
  from switch_off[OF off, of _ _ _ _ "[]" False "Some SyntaxError" _ _ "[]"]
       empty_exhausted[of quiet] off ok
  show ?thesis by simp
qed

section \<open>The close-brace patch checks no shape\<close>

lemma unclosed_object_facts:
  "direct_decode unclosed_object_payload = Inl SyntaxError"
  "patch_triggered unclosed_object_payload"
  "JSON_parse (unclosed_object_payload @ [0x7D]) = Inr (JObj [(js ''a'', JNum (Dec False 1 0))])"
  "snd (close_brace_patch quiet unclosed_object_payload) =
     Some \<lparr>output = JStr (js ''undefined'' @ 0x0A # js ''[Note: Response was truncated and automatically fixed]''),
           metadata = JUndefined\<rparr>"
  "decode_result quiet unclosed_object_payload =
     Inr \<lparr>output = JStr (js ''undefined'' @ 0x0A # js ''[Note: Response was truncated and automatically fixed]''),
          metadata = JUndefined\<rparr>"
  by code_simp+

text \<open>
  Claim C10. The input \<open>{"a":1\<close> fails the direct decode and triggers the close-brace patch;
  with one brace appended it parses to an object that has neither \<open>output\<close> nor \<open>metadata\<close>.
  The patch returns all the same: the output is the text \<open>undefined\<close>, a line feed and the
  note of an automatic fix, the metadata is \<open>undefined\<close>, and this is what the call returns.
\<close>

theorem patch_returns_without_shape_check:
  "direct_decode unclosed_object_payload = Inl SyntaxError \<and>
   patch_triggered unclosed_object_payload \<and>
   JSON_parse (unclosed_object_payload @ [0x7D]) = Inr (JObj [(js ''a'', JNum (Dec False 1 0))]) \<and>
   snd (close_brace_patch w unclosed_object_payload) =
     Some \<lparr>output = JStr (js ''undefined'' @ 0x0A # js ''[Note: Response was truncated and automatically fixed]''),
           metadata = JUndefined\<rparr> \<and>
   decode_result w unclosed_object_payload =
     Inr \<lparr>output = JStr (js ''undefined'' @ 0x0A # js ''[Note: Response was truncated and automatically fixed]''),
          metadata = JUndefined\<rparr>"
  using unclosed_object_facts decode_result_world[of w unclosed_object_payload quiet]
    close_brace_patch_result[of w unclosed_object_payload quiet]
  by simp

section \<open>Printing a number and reading it back\<close>

lemma decimal_digits_table:
  "list_all (\<lambda>n. is_digit (decimal_digit n) \<and> unat (decimal_digit n) - 48 = n \<and>
                 (decimal_digit n = 0x30 \<longleftrightarrow> n = 0)) [0..<10]"
  by code_simp

lemma digit_char:
  assumes "n < 10"
  shows "is_digit (decimal_digit n)" and "unat (decimal_digit n) - 48 = n"
    and "decimal_digit n = 0x30 \<longleftrightarrow> n = 0"
  using decimal_digits_table assms by (simp_all add: list_all_iff)

lemma digits_of_nat_digits: "list_all is_digit (digits_of_nat n)"
proof (induction n rule: digits_of_nat.induct)
  case (1 n)
  show ?case
  proof (cases "n < 10")
    case True
    then show ?thesis by (simp add: digits_of_nat.simps[of n] digit_char)
  next
    case False
    with 1 show ?thesis by (simp add: digits_of_nat.simps[of n] digit_char)
  qed
qed

lemma digits_of_nat_nonempty: "digits_of_nat n \<noteq> []"
  by (subst digits_of_nat.simps) simp

lemma digits_of_nat_hd: "0 < n \<Longrightarrow> hd (digits_of_nat n) \<noteq> 0x30"
proof (induction n rule: digits_of_nat.induct)
  case (1 n)
  show ?case
  proof (cases "n < 10")
    case True
    with "1.prems" show ?thesis by (simp add: digits_of_nat.simps[of n] digit_char)
  next
    case False
    then have "0 < n div 10" by simp
    with 1 False show ?thesis
      by (simp add: digits_of_nat.simps[of n] digits_of_nat_nonempty)
  qed
qed

lemma nat_of_digits_snoc: "nat_of_digits (xs @ [c]) = 10 * nat_of_digits xs + (unat c - 48)"
  by (simp add: nat_of_digits_def)

lemma nat_of_digits_append:
  "nat_of_digits (xs @ ys) = nat_of_digits xs * 10 ^ length ys + nat_of_digits ys"
proof (induction ys rule: rev_induct)
  case Nil
  then show ?case by (simp add: nat_of_digits_def)
next
  case (snoc y ys)
  have "nat_of_digits (xs @ ys @ [y]) = 10 * nat_of_digits (xs @ ys) + (unat y - 48)"
    using nat_of_digits_snoc[of "xs @ ys" y] by simp
  with snoc show ?case by (simp add: nat_of_digits_snoc algebra_simps)
qed

lemma nat_of_digits_digits_of_nat: "nat_of_digits (digits_of_nat n) = n"
proof (induction n rule: digits_of_nat.induct)
  case (1 n)
  show ?case
  proof (cases "n < 10")
    case True
    then show ?thesis
      by (simp add: digits_of_nat.simps[of n] nat_of_digits_def digit_char)
  next
    case False
    with 1 show ?thesis
      by (simp add: digits_of_nat.simps[of n] nat_of_digits_snoc digit_char)
  qed
qed

lemma nat_of_digits_zeros: "nat_of_digits (replicate j 0x30) = 0"
  by (induction j) (simp_all add: nat_of_digits_def)

lemma norm10_stop: "m mod 10 \<noteq> 0 \<Longrightarrow> norm10 m e = (m, e)"
  by (subst norm10.simps) simp

lemma norm10_power: "m mod 10 \<noteq> 0 \<Longrightarrow> norm10 (m * 10 ^ j) e = (m, e + int j)"
proof (induction j arbitrary: e)
  case 0
  then show ?case by (simp add: norm10_stop)
next
  case (Suc j)
  from Suc.prems have "m \<noteq> 0" by auto
  then have "norm10 (m * 10 ^ Suc j) e = norm10 (m * 10 ^ j) (e + 1)"
    by (subst norm10.simps) simp
  with Suc show ?case by simp
qed

lemma normalise_power:
  "m mod 10 \<noteq> 0 \<Longrightarrow> normalise sg (m * 10 ^ j) e = Dec sg m (e + int j)"
  by (auto simp: normalise_def norm10_power)

lemma ends_number_no_digit: "ends_number rest \<Longrightarrow> no_digit_ahead rest"
  by (auto simp: ends_number_def no_digit_ahead_def split: list.splits)

lemma no_digit_ahead_simps [simp]:
  "no_digit_ahead (0x2E # r)" "no_digit_ahead (0x65 # r)"
  by (simp_all add: no_digit_ahead_def is_digit_def)

lemma takeWhile_digits:
  assumes "list_all is_digit ds" "no_digit_ahead tail"
  shows "takeWhile is_digit (ds @ tail) = ds" and "dropWhile is_digit (ds @ tail) = tail"
proof -
  from assms(2) have t: "takeWhile is_digit tail = []" and d: "dropWhile is_digit tail = tail"
    by (auto simp: no_digit_ahead_def split: list.splits)
  from assms(1) have all: "\<And>x. x \<in> set ds \<Longrightarrow> is_digit x"
    by (simp add: list_all_iff)
  show "takeWhile is_digit (ds @ tail) = ds"
    using takeWhile_append2[of ds is_digit tail] all t by simp
  show "dropWhile is_digit (ds @ tail) = tail"
    using dropWhile_append2[of ds is_digit tail] all d by simp
qed

lemma lex_int_digits:
  assumes "ip \<noteq> []" "list_all is_digit ip" "hd ip \<noteq> 0x30" "no_digit_ahead tail"
  shows "lex_int (ip @ tail) = Some (ip, tail)"
proof -
  from assms(1) obtain c r where ip: "ip = c # r" by (cases ip) auto
  with assms have c: "c \<noteq> 0x30" "is_digit c" by auto
  have "lex_int (ip @ tail) =
          Some (takeWhile is_digit (ip @ tail), dropWhile is_digit (ip @ tail))"
    using c ip by (simp add: lex_int_def)
  with takeWhile_digits[OF assms(2,4)] show ?thesis by simp
qed

lemma lex_int_zero: "lex_int (0x30 # tail) = Some ([0x30], tail)"
  by (simp add: lex_int_def)

lemma lex_frac_some:
  assumes "fp \<noteq> []" "list_all is_digit fp" "no_digit_ahead tail"
  shows "lex_frac (0x2E # fp @ tail) = Some (fp, tail)"
  using takeWhile_digits[OF assms(2,3)] assms(1) by (simp add: lex_frac_def)

lemma lex_frac_none: "(case tail of [] \<Rightarrow> True | c # r \<Rightarrow> c \<noteq> 0x2E) \<Longrightarrow> lex_frac tail = Some ([], tail)"
  by (auto simp: lex_frac_def split: list.splits)

lemma lex_exp_none:
  "(case tail of [] \<Rightarrow> True | c # r \<Rightarrow> c \<noteq> 0x65 \<and> c \<noteq> 0x45) \<Longrightarrow> lex_exp tail = Some (0, tail)"
  by (auto simp: lex_exp_def split: list.splits)

lemma lex_exp_some:
  assumes "es \<noteq> []" "list_all is_digit es" "no_digit_ahead tail"
  shows "lex_exp (0x65 # 0x2B # es @ tail) = Some (int (nat_of_digits es), tail)"
    and "lex_exp (0x65 # 0x2D # es @ tail) = Some (- int (nat_of_digits es), tail)"
  using takeWhile_digits[OF assms(2,3)] assms(1)
  by (simp_all add: lex_exp_def lex_exp_digits_def)

lemma lex_unsigned_parts:
  "lex_int cs = Some (ip, cs1) \<Longrightarrow> lex_frac cs1 = Some (fp, cs2) \<Longrightarrow> lex_exp cs2 = Some (ex, cs3) \<Longrightarrow>
   lex_unsigned sg cs = Some (normalise sg (nat_of_digits (ip @ fp)) (ex - int (length fp)), cs3)"
  by (simp add: lex_unsigned_def)

lemma ends_number_frac: "ends_number rest \<Longrightarrow> lex_frac rest = Some ([], rest)"
  by (rule lex_frac_none) (auto simp: ends_number_def split: list.splits)

lemma ends_number_exp: "ends_number rest \<Longrightarrow> lex_exp rest = Some (0, rest)"
  by (rule lex_exp_none) (auto simp: ends_number_def split: list.splits)

lemma list_all_take_drop:
  "list_all P xs \<Longrightarrow> list_all P (take n xs) \<and> list_all P (drop n xs)"
  by (metis append_take_drop_id list_all_append)

lemma zeros_digits: "list_all is_digit (replicate j 0x30)"
  by (induction j) (simp_all add: is_digit_def)

lemma layout_integer:
  assumes "m mod 10 \<noteq> 0" "ends_number rest"
  shows "lex_unsigned sg ((digits_of_nat m @ replicate j 0x30) @ rest) = Some (Dec sg m (int j), rest)"
proof -
  let ?ds = "digits_of_nat m"
  from assms(1) have pos: "0 < m" by (cases m) auto
  have ip: "?ds @ replicate j 0x30 \<noteq> []" "list_all is_digit (?ds @ replicate j 0x30)"
    "hd (?ds @ replicate j 0x30) \<noteq> 0x30"
    using digits_of_nat_nonempty[of m] digits_of_nat_digits[of m] digits_of_nat_hd[OF pos]
      zeros_digits[of j]
    by simp_all
  have v: "nat_of_digits ((?ds @ replicate j 0x30) @ []) = m * 10 ^ j"
    by (simp add: nat_of_digits_append nat_of_digits_zeros nat_of_digits_digits_of_nat)
  from lex_unsigned_parts[OF lex_int_digits[OF ip ends_number_no_digit[OF assms(2)]]
         ends_number_frac[OF assms(2)] ends_number_exp[OF assms(2)], of sg]
  show ?thesis unfolding v using normalise_power[OF assms(1), of sg j 0] by simp
qed

lemma layout_point:
  assumes "m mod 10 \<noteq> 0" "ends_number rest" "0 < p" "p < length (digits_of_nat m)"
  shows "lex_unsigned sg ((take p (digits_of_nat m) @ [0x2E] @ drop p (digits_of_nat m)) @ rest) =
           Some (Dec sg m (int p - int (length (digits_of_nat m))), rest)"
proof -
  let ?ds = "digits_of_nat m"
  from assms(1) have pos: "0 < m" by (cases m) auto
  have ip: "take p ?ds \<noteq> []" "list_all is_digit (take p ?ds)" "hd (take p ?ds) \<noteq> 0x30"
    using assms(3,4) digits_of_nat_digits[of m] digits_of_nat_hd[OF pos]
    by (auto simp: list_all_take_drop)
  have fp: "drop p ?ds \<noteq> []" "list_all is_digit (drop p ?ds)"
    using assms(4) digits_of_nat_digits[of m] by (auto simp: list_all_take_drop)
  have i: "lex_int (take p ?ds @ (0x2E # drop p ?ds @ rest)) = Some (take p ?ds, 0x2E # drop p ?ds @ rest)"
    by (rule lex_int_digits[OF ip]) simp
  have f: "lex_frac (0x2E # drop p ?ds @ rest) = Some (drop p ?ds, rest)"
    by (rule lex_frac_some[OF fp ends_number_no_digit[OF assms(2)]])
  from lex_unsigned_parts[OF i f ends_number_exp[OF assms(2)], of sg]
  show ?thesis
    using normalise_power[OF assms(1), of sg 0] assms(4)
    by (simp add: nat_of_digits_digits_of_nat)
qed

lemma layout_small:
  assumes "m mod 10 \<noteq> 0" "ends_number rest"
  shows "lex_unsigned sg (([0x30, 0x2E] @ replicate j 0x30 @ digits_of_nat m) @ rest) =
           Some (Dec sg m (- int j - int (length (digits_of_nat m))), rest)"
proof -
  let ?ds = "digits_of_nat m"
  have fp: "replicate j 0x30 @ ?ds \<noteq> []" "list_all is_digit (replicate j 0x30 @ ?ds)"
    using digits_of_nat_nonempty[of m] digits_of_nat_digits[of m] zeros_digits[of j]
    by simp_all
  have f: "lex_frac (0x2E # (replicate j 0x30 @ ?ds) @ rest) = Some (replicate j 0x30 @ ?ds, rest)"
    by (rule lex_frac_some[OF fp ends_number_no_digit[OF assms(2)]])
  have v: "nat_of_digits ([0x30] @ replicate j 0x30 @ ?ds) = m"
    using nat_of_digits_append[of "replicate (Suc j) 0x30" ?ds] nat_of_digits_zeros[of "Suc j"]
    by (simp add: nat_of_digits_digits_of_nat)
  from lex_unsigned_parts[OF lex_int_zero f ends_number_exp[OF assms(2)], of sg]
  show ?thesis unfolding v
    using normalise_power[OF assms(1), of sg 0] by simp
qed

lemma exponent_part:
  assumes "ends_number rest"
  shows "lex_exp ([0x65, if ex < 0 then 0x2D else 0x2B] @ digits_of_nat (nat \<bar>ex\<bar>) @ rest) = Some (ex, rest)"
  using lex_exp_some[OF digits_of_nat_nonempty digits_of_nat_digits ends_number_no_digit[OF assms],
          of "nat \<bar>ex\<bar>"]
  by (auto simp: nat_of_digits_digits_of_nat)

lemma layout_exp_one:
  assumes "m mod 10 \<noteq> 0" "ends_number rest" "length (digits_of_nat m) = 1"
  shows "lex_unsigned sg ((digits_of_nat m @ [0x65, if ex < 0 then 0x2D else 0x2B] @ digits_of_nat (nat \<bar>ex\<bar>)) @ rest) =
           Some (Dec sg m ex, rest)"
proof -
  let ?ds = "digits_of_nat m" and ?e = "[0x65, if ex < 0 then 0x2D else 0x2B] @ digits_of_nat (nat \<bar>ex\<bar>) @ rest"
  from assms(1) have pos: "0 < m" by (cases m) auto
  have i: "lex_int (?ds @ ?e) = Some (?ds, ?e)"
    by (rule lex_int_digits[OF digits_of_nat_nonempty digits_of_nat_digits digits_of_nat_hd[OF pos]]) simp
  have f: "lex_frac ?e = Some ([], ?e)"
    by (rule lex_frac_none) simp
  from lex_unsigned_parts[OF i f exponent_part[OF assms(2), of ex], where sg = sg]
  show ?thesis
    using normalise_power[OF assms(1), of sg 0] by (simp add: nat_of_digits_digits_of_nat)
qed

lemma layout_exp_many:
  assumes "m mod 10 \<noteq> 0" "ends_number rest" "1 < length (digits_of_nat m)"
  shows "lex_unsigned sg ((take 1 (digits_of_nat m) @ [0x2E] @ drop 1 (digits_of_nat m) @
            [0x65, if ex < 0 then 0x2D else 0x2B] @ digits_of_nat (nat \<bar>ex\<bar>)) @ rest) =
           Some (Dec sg m (ex - (int (length (digits_of_nat m)) - 1)), rest)"
proof -
  let ?ds = "digits_of_nat m" and ?e = "[0x65, if ex < 0 then 0x2D else 0x2B] @ digits_of_nat (nat \<bar>ex\<bar>) @ rest"
  from assms(1) have pos: "0 < m" by (cases m) auto
  have ip: "take 1 ?ds \<noteq> []" "list_all is_digit (take 1 ?ds)" "hd (take 1 ?ds) \<noteq> 0x30"
    using assms(3) digits_of_nat_digits[of m] digits_of_nat_hd[OF pos]
    by (auto simp: list_all_take_drop)
  have fp: "drop 1 ?ds \<noteq> []" "list_all is_digit (drop 1 ?ds)"
    using assms(3) digits_of_nat_digits[of m] by (auto simp: list_all_take_drop)
  have i: "lex_int (take 1 ?ds @ (0x2E # drop 1 ?ds @ ?e)) = Some (take 1 ?ds, 0x2E # drop 1 ?ds @ ?e)"
    by (rule lex_int_digits[OF ip]) simp
  have f: "lex_frac (0x2E # drop 1 ?ds @ ?e) = Some (drop 1 ?ds, ?e)"
    by (rule lex_frac_some[OF fp]) simp
  from lex_unsigned_parts[OF i f exponent_part[OF assms(2), of ex], where sg = sg]
  show ?thesis
    using normalise_power[OF assms(1), of sg 0] assms(3)
    by (simp add: nat_of_digits_digits_of_nat)
qed

lemma lex_unsigned_layout:
  assumes m: "m mod 10 \<noteq> 0" and rest: "ends_number rest"
  shows "lex_unsigned sg (layout (digits_of_nat m) (int (length (digits_of_nat m)) + e) @ rest) =
           Some (Dec sg m e, rest)"
proof -
  let ?ds = "digits_of_nat m"
  let ?k = "int (length ?ds)"
  let ?n = "?k + e"
  have k1: "1 \<le> length ?ds" using digits_of_nat_nonempty[of m] by (cases ?ds) auto
  consider (a) "?k \<le> ?n \<and> ?n \<le> 21"
    | (b) "\<not> (?k \<le> ?n \<and> ?n \<le> 21)" "0 < ?n \<and> ?n \<le> 21"
    | (c) "\<not> (?k \<le> ?n \<and> ?n \<le> 21)" "\<not> (0 < ?n \<and> ?n \<le> 21)" "- 6 < ?n \<and> ?n \<le> 0"
    | (d) "\<not> (?k \<le> ?n \<and> ?n \<le> 21)" "\<not> (0 < ?n \<and> ?n \<le> 21)" "\<not> (- 6 < ?n \<and> ?n \<le> 0)"
    by blast
  then show ?thesis
  proof cases
    case a
    then have e: "0 \<le> e" by simp
    from a have "layout ?ds ?n = ?ds @ replicate (nat e) 0x30"
      by (simp add: layout_def Let_def)
    with layout_integer[OF m rest, of sg "nat e"] e show ?thesis by simp
  next
    case b
    then have p: "0 < nat ?n" "nat ?n < length ?ds" by auto
    from b have "layout ?ds ?n = take (nat ?n) ?ds @ [0x2E] @ drop (nat ?n) ?ds"
      by (simp add: layout_def Let_def)
    with layout_point[OF m rest p, of sg] p show ?thesis by simp
  next
    case c
    then have "layout ?ds ?n = [0x30, 0x2E] @ replicate (nat (- ?n)) 0x30 @ ?ds"
      by (simp add: layout_def Let_def)
    with layout_small[OF m rest, of sg "nat (- ?n)"] c show ?thesis by simp
  next
    case d
    then have lay: "layout ?ds ?n =
        (if ?k = 1
         then ?ds @ [0x65, if ?n - 1 < 0 then 0x2D else 0x2B] @ digits_of_nat (nat \<bar>?n - 1\<bar>)
         else take 1 ?ds @ [0x2E] @ drop 1 ?ds @
              [0x65, if ?n - 1 < 0 then 0x2D else 0x2B] @ digits_of_nat (nat \<bar>?n - 1\<bar>))"
      unfolding layout_def Let_def by (simp only: if_False)
    show ?thesis
    proof (cases "length ?ds = 1")
      case True
      with lay layout_exp_one[OF m rest True, of sg "?n - 1"] show ?thesis by simp
    next
      case False
      with k1 have many: "1 < length ?ds" by simp
      with lay layout_exp_many[OF m rest many, of sg "?n - 1"] show ?thesis by simp
    qed
  qed
qed

lemma layout_first:
  assumes "ds \<noteq> []" "list_all is_digit ds"
  shows "\<exists>c cs. layout ds n = c # cs \<and> is_digit c"
proof -
  from assms obtain d r where ds: "ds = d # r" and d: "is_digit d" by (cases ds) auto
  have z: "is_digit 0x30" by (simp add: is_digit_def)
  show ?thesis
    unfolding layout_def Let_def using ds d z
    by (auto simp: take_Cons' )
qed

lemma number_to_string_first:
  "\<exists>c cs. number_to_string x = c # cs \<and> (c = 0x2D \<or> is_digit c)"
proof (cases "mant x = 0")
  case True
  then show ?thesis by (simp add: number_to_string_def is_digit_def)
next
  case False
  from layout_first[OF digits_of_nat_nonempty digits_of_nat_digits]
  obtain c cs where "layout (digits_of_nat (mant x)) (int (length (digits_of_nat (mant x))) + expo x) = c # cs"
    "is_digit c" by blast
  with False show ?thesis by (auto simp: number_to_string_def)
qed

lemma lex_number_number_to_string:
  assumes "real_number x" "ends_number rest"
  shows "lex_number (number_to_string x @ rest) = Some (x, rest)"
proof (cases "mant x = 0")
  case True
  with assms(1) have x: "x = Dec False 0 0"
    by (cases x) (auto simp: real_number_def normal_def)
  have "lex_unsigned False (0x30 # rest) = Some (normalise False (nat_of_digits ([0x30] @ [])) (0 - int (length ([]::jsstring))), rest)"
    by (rule lex_unsigned_parts[OF lex_int_zero ends_number_frac[OF assms(2)] ends_number_exp[OF assms(2)]])
  then show ?thesis using x
    by (simp add: number_to_string_def lex_number_def nat_of_digits_def normalise_def)
next
  case False
  with assms(1) have m: "mant x mod 10 \<noteq> 0" by (simp add: real_number_def normal_def)
  let ?l = "layout (digits_of_nat (mant x)) (int (length (digits_of_nat (mant x))) + expo x)"
  have u: "lex_unsigned sg (?l @ rest) = Some (Dec sg (mant x) (expo x), rest)" for sg
    by (rule lex_unsigned_layout[OF m assms(2)])
  from layout_first[OF digits_of_nat_nonempty digits_of_nat_digits]
  obtain c cs where l: "?l = c # cs" and c: "is_digit c" by blast
  from c have c': "c \<noteq> 0x2D" by (auto simp: is_digit_def)
  show ?thesis
  proof (cases "neg x")
    case True
    with False u[of True] show ?thesis
      by (cases x) (simp add: number_to_string_def lex_number_def)
  next
    case neg: False
    have "lex_number (?l @ rest) = lex_unsigned False (?l @ rest)"
      using l c' by (simp add: lex_number_def)
    with False neg u[of False] show ?thesis
      by (cases x) (simp add: number_to_string_def)
  qed
qed

lemma digit_plain:
  assumes "c = 0x2D \<or> is_digit c"
  shows "\<not> is_whitespace c" "c \<noteq> 0x7B" "c \<noteq> 0x7D" "c \<noteq> 0x5B" "c \<noteq> 0x5D" "c \<noteq> 0x3A"
    "c \<noteq> 0x2C" "c \<noteq> 0x22"
  using assms by (auto simp: is_digit_def is_whitespace_def)

lemma tokenize_number:
  assumes "real_number x" "ends_number rest"
  shows "tokenize (number_to_string x @ rest) = map_option ((#) (TNumber x)) (tokenize rest)"
proof -
  from number_to_string_first obtain c cs where n: "number_to_string x = c # cs"
    and c: "c = 0x2D \<or> is_digit c" by blast
  from lex_number_number_to_string[OF assms] n
  have l: "lex_number (c # cs @ rest) = Some (x, rest)" by simp
  have "tokenize (c # cs @ rest) = map_option ((#) (TNumber x)) (tokenize rest)"
    using digit_plain[OF c] c l by (simp add: tokenize.simps(2))
  with n show ?thesis by simp
qed

section \<open>Quoting a string and reading it back\<close>

lemma hex_digits_table: "list_all (\<lambda>n. hex_value (hex_digit n) = Some n) [0..<16]"
  by code_simp

lemma hex_value_hex_digit: "n < 16 \<Longrightarrow> hex_value (hex_digit n) = Some n"
  using hex_digits_table by (simp add: list_all_iff)

lemma hex_positions: "((a div 4096 * 16 + a div 256 mod 16) * 16 + a div 16 mod 16) * 16 + a mod 16 = (a::nat)"
proof -
  have b: "a div 256 = a div 16 div 16" and c: "a div 4096 = a div 16 div 16 div 16"
    by (simp_all add: div_mult2_eq[symmetric])
  have "a div 16 div 16 div 16 * 16 + a div 16 div 16 mod 16 = a div 16 div 16"
    by (rule div_mult_mod_eq)
  moreover have "a div 16 div 16 * 16 + a div 16 mod 16 = a div 16"
    by (rule div_mult_mod_eq)
  moreover have "a div 16 * 16 + a mod 16 = a"
    by (rule div_mult_mod_eq)
  ultimately show ?thesis unfolding b c by simp
qed

lemma hex4_unicode_escape:
  "hex4 (hex_digit (unat c div 4096)) (hex_digit (unat c div 256 mod 16))
        (hex_digit (unat c div 16 mod 16)) (hex_digit (unat c mod 16)) = Some c"
proof -
  have "unat c < 2 ^ 16" using unsigned_less[of c, where 'a = nat] by simp
  then have d: "unat c div 4096 < 16" by simp
  have h1: "hex_value (hex_digit (unat c div 4096)) = Some (unat c div 4096)"
    by (rule hex_value_hex_digit[OF d])
  have h2: "hex_value (hex_digit (unat c div 256 mod 16)) = Some (unat c div 256 mod 16)"
    by (rule hex_value_hex_digit) simp
  have h3: "hex_value (hex_digit (unat c div 16 mod 16)) = Some (unat c div 16 mod 16)"
    by (rule hex_value_hex_digit) simp
  have h4: "hex_value (hex_digit (unat c mod 16)) = Some (unat c mod 16)"
    by (rule hex_value_hex_digit) simp
  have v: "(of_nat (((unat c div 4096 * 16 + unat c div 256 mod 16) * 16 + unat c div 16 mod 16) * 16 +
             unat c mod 16) :: 16 word) = c"
    by (simp only: hex_positions) simp
  show ?thesis
    unfolding hex4_def h1 h2 h3 h4 by (simp only: prod.case option.case v)
qed

lemma lex_string_quote: "lex_string (0x22 # tail) = Some ([], tail)"
  by simp

lemma lex_string_escape:
  "lex_string (unicode_escape c @ tail) = map_option (\<lambda>(s, rest). (c # s, rest)) (lex_string tail)"
  by (simp add: unicode_escape_def hex4_unicode_escape)

lemma lex_string_plain:
  "c \<noteq> 0x22 \<Longrightarrow> c \<noteq> 0x5C \<Longrightarrow> \<not> c < 0x20 \<Longrightarrow>
   lex_string (c # tail) = map_option (\<lambda>(s, rest). (c # s, rest)) (lex_string tail)"
  by simp

lemma lex_string_short:
  "unescape e = Some u \<Longrightarrow> e \<noteq> 0x75 \<Longrightarrow>
   lex_string (0x5C # e # tail) = map_option (\<lambda>(s, rest). (u # s, rest)) (lex_string tail)"
  by simp

lemma lex_string_quote_unit:
  "lex_string (quote_unit c @ tail) = map_option (\<lambda>(s, rest). (c # s, rest)) (lex_string tail)"
proof -
  consider "c = 0x08" | "c = 0x09" | "c = 0x0A" | "c = 0x0C" | "c = 0x0D" | "c = 0x22" | "c = 0x5C"
    | (esc) "c \<noteq> 0x08" "c \<noteq> 0x09" "c \<noteq> 0x0A" "c \<noteq> 0x0C" "c \<noteq> 0x0D" "c \<noteq> 0x22" "c \<noteq> 0x5C"
        "c < 0x20 \<or> is_high_surrogate c \<or> is_low_surrogate c"
    | (plain) "c \<noteq> 0x08" "c \<noteq> 0x09" "c \<noteq> 0x0A" "c \<noteq> 0x0C" "c \<noteq> 0x0D" "c \<noteq> 0x22" "c \<noteq> 0x5C"
        "\<not> (c < 0x20 \<or> is_high_surrogate c \<or> is_low_surrogate c)"
    by blast
  then show ?thesis
  proof cases
    case esc
    then have "quote_unit c = unicode_escape c" by (simp add: quote_unit_def)
    then show ?thesis by (simp only: lex_string_escape)
  next
    case plain
    then have "quote_unit c = [c]" by (simp add: quote_unit_def)
    with plain lex_string_plain[of c tail] show ?thesis by (simp del: lex_string.simps)
  qed (simp_all add: quote_unit_def lex_string_short unescape_def del: lex_string.simps)
qed

lemma surrogate_plain:
  assumes "is_high_surrogate c \<or> is_low_surrogate c"
  shows "c \<noteq> 0x22" "c \<noteq> 0x5C" "\<not> c < 0x20"
  using assms
  by (auto simp: is_high_surrogate_def is_low_surrogate_def word_le_nat_alt word_less_nat_alt)

lemma lex_string_quote_body:
  "lex_string (quote_body s @ 0x22 # rest) = Some (s, rest)"
proof (induction s rule: quote_body.induct)
  case 1
  then show ?case by (simp add: lex_string_quote)
next
  case (2 c)
  then show ?case
    by (simp add: lex_string_quote_unit lex_string_quote del: lex_string.simps)
next
  case (3 c d cs)
  show ?case
  proof (cases "is_high_surrogate c \<and> is_low_surrogate d")
    case True
    then have c: "c \<noteq> 0x22" "c \<noteq> 0x5C" "\<not> c < 0x20" and d: "d \<noteq> 0x22" "d \<noteq> 0x5C" "\<not> d < 0x20"
      using surrogate_plain[of c] surrogate_plain[of d] by auto
    from True have q: "quote_body (c # d # cs) = c # d # quote_body cs" by simp
    from True 3(1) have "lex_string (quote_body cs @ 0x22 # rest) = Some (cs, rest)" by simp
    then show ?thesis
      unfolding q using lex_string_plain[OF c] lex_string_plain[OF d]
      by (simp del: lex_string.simps)
  next
    case False
    then have q: "quote_body (c # d # cs) = quote_unit c @ quote_body (d # cs)" by auto
    from False 3(2) have "lex_string (quote_body (d # cs) @ 0x22 # rest) = Some (d # cs, rest)"
      by simp
    then show ?thesis
      unfolding q by (simp add: lex_string_quote_unit del: lex_string.simps)
  qed
qed

lemma tokenize_string:
  "tokenize (QuoteJSONString s @ rest) = map_option ((#) (TString s)) (tokenize rest)"
  using lex_string_quote_body[of s rest]
  by (simp add: QuoteJSONString_def tokenize.simps(2) is_whitespace_def del: lex_string.simps)

section \<open>The round trip of a result\<close>

lemma tokenize_punctuation:
  "tokenize (0x7B # r) = map_option ((#) TLBrace) (tokenize r)"
  "tokenize (0x7D # r) = map_option ((#) TRBrace) (tokenize r)"
  "tokenize (0x3A # r) = map_option ((#) TColon) (tokenize r)"
  "tokenize (0x2C # r) = map_option ((#) TComma) (tokenize r)"
  by (simp_all add: tokenize.simps(2) is_whitespace_def)

lemma ends_number_simps: "ends_number (0x2C # r)" "ends_number (0x7D # r)"
  by (simp_all add: ends_number_def is_digit_def)

lemma key_facts:
  "js ''metadata'' \<noteq> js ''output''" "js ''duration_seconds'' \<noteq> js ''exit_code''"
  by code_simp+

lemma decode_wire_object:
  assumes "JSON_parse raw = Inr (JObj [(js ''output'', outp), (js ''metadata'', m)])"
  shows "decode_result w raw = Inr \<lparr>output = outp, metadata = m\<rparr>"
proof -
  from assms key_facts(1)
  have "direct_decode raw = Inr \<lparr>output = outp, metadata = m\<rparr>"
    by (simp add: direct_decode_def destructure_def get_property_def)
  then show ?thesis by (simp add: decode_result_returned try_block_direct)
qed

lemma encode_wire_object:
  "encode_result \<lparr>output = JStr s, metadata = ExecOutputMetadata c d\<rparr> =
     Some (0x7B # QuoteJSONString (js ''output'') @ 0x3A # QuoteJSONString s @
           0x2C # QuoteJSONString (js ''metadata'') @ 0x3A #
           0x7B # QuoteJSONString (js ''exit_code'') @ 0x3A # number_to_string c @
           0x2C # QuoteJSONString (js ''duration_seconds'') @ 0x3A # number_to_string d @
           [0x7D, 0x7D])"
  by (simp add: encode_result_def ExecOutputMetadata_def)

lemma tokenize_wire_object:
  assumes "real_number c" "real_number d"
  shows "tokenize (0x7B # QuoteJSONString (js ''output'') @ 0x3A # QuoteJSONString s @
           0x2C # QuoteJSONString (js ''metadata'') @ 0x3A #
           0x7B # QuoteJSONString (js ''exit_code'') @ 0x3A # number_to_string c @
           0x2C # QuoteJSONString (js ''duration_seconds'') @ 0x3A # number_to_string d @
           [0x7D, 0x7D]) =
         Some [TLBrace, TString (js ''output''), TColon, TString s, TComma,
               TString (js ''metadata''), TColon, TLBrace, TString (js ''exit_code''), TColon,
               TNumber c, TComma, TString (js ''duration_seconds''), TColon, TNumber d,
               TRBrace, TRBrace]"
  by (simp add: tokenize_punctuation tokenize_string tokenize_number[OF assms(1)]
        tokenize_number[OF assms(2)] ends_number_simps)

lemma parse_wire_tokens:
  "parse_tokens [TLBrace, TString (js ''output''), TColon, TString s, TComma,
               TString (js ''metadata''), TColon, TLBrace, TString (js ''exit_code''), TColon,
               TNumber c, TComma, TString (js ''duration_seconds''), TColon, TNumber d,
               TRBrace, TRBrace] =
     Inr (JObj [(js ''output'', JStr s), (js ''metadata'', ExecOutputMetadata c d)])"
  using key_facts by (simp add: parse_tokens_def ExecOutputMetadata_def)

text \<open>
  Claim C8. For every well-formed ToolResult \<open>v\<close> (a text \<open>output\<close>, a \<open>metadata\<close> with an
  integer \<open>exit_code\<close> and a real \<open>duration_seconds\<close>), \<open>JSON.stringify\<close> of \<open>v\<close> yields a
  text, and \<open>parseToolCallOutput\<close> of that text returns \<open>v\<close>.
\<close>

theorem encode_decode_round_trip:
  assumes "valid_ToolResult v"
  shows "\<exists>text. encode_result v = Some text \<and> decode_result w text = Inr v"
proof -
  from assms have str: "is_string (output v)" and meta: "valid_metadata (metadata v)"
    by (simp_all add: valid_ToolResult_def)
  from str obtain s where s: "output v = JStr s"
    by (cases "output v") (simp_all add: is_string_def)
  from meta obtain c d where m: "metadata v = ExecOutputMetadata c d"
    and c: "real_number c" and d: "real_number d"
    by (rule valid_metadata.elims(2)) (simp add: ExecOutputMetadata_def integer_number_def)
  from s m have v: "v = \<lparr>output = JStr s, metadata = ExecOutputMetadata c d\<rparr>"
    by (cases v) simp
  let ?text = "0x7B # QuoteJSONString (js ''output'') @ 0x3A # QuoteJSONString s @
           0x2C # QuoteJSONString (js ''metadata'') @ 0x3A #
           0x7B # QuoteJSONString (js ''exit_code'') @ 0x3A # number_to_string c @
           0x2C # QuoteJSONString (js ''duration_seconds'') @ 0x3A # number_to_string d @
           [0x7D, 0x7D]"
  have "JSON_parse ?text = Inr (JObj [(js ''output'', JStr s), (js ''metadata'', ExecOutputMetadata c d)])"
    unfolding JSON_parse_def tokenize_wire_object[OF c d] by (simp add: parse_wire_tokens)
  then have "decode_result w ?text = Inr v"
    unfolding v by (rule decode_wire_object)
  with encode_wire_object[of s c d] v show ?thesis by simp
qed

lemma hello_result_facts:
  "valid_ToolResult \<lparr>output = JStr (js ''hello''),
                     metadata = ExecOutputMetadata (Dec False 0 0) (Dec False 15 (- 1))\<rparr>"
  "encode_result \<lparr>output = JStr (js ''hello''),
                  metadata = ExecOutputMetadata (Dec False 0 0) (Dec False 15 (- 1))\<rparr> =
     Some complete_payload"
  by code_simp+

theorem encode_decode_round_trip_witness:
  "valid_ToolResult \<lparr>output = JStr (js ''hello''),
                     metadata = ExecOutputMetadata (Dec False 0 0) (Dec False 15 (- 1))\<rparr> \<and>
   encode_result \<lparr>output = JStr (js ''hello''),
                  metadata = ExecOutputMetadata (Dec False 0 0) (Dec False 15 (- 1))\<rparr> =
     Some complete_payload \<and>
   decode_result quiet complete_payload =
     Inr \<lparr>output = JStr (js ''hello''),
          metadata = ExecOutputMetadata (Dec False 0 0) (Dec False 15 (- 1))\<rparr>"
  using encode_decode_round_trip[OF hello_result_facts(1), of quiet] hello_result_facts
  by auto

end
